theory Spec2Isabelle
  imports Main "HOL-Library.AList"
begin

section \<open>Values, errors and the file system\<close>

text \<open>
  The values that \<^verbatim>\<open>yaml.safe_load\<close> hands to the program: null, booleans, integers,
  strings, sequences and mappings. A mapping is a Python \<^verbatim>\<open>dict\<close>: an association list
  in insertion order. Floats, timestamps and the other scalar types of YAML play no part in
  the generator and are left out.
\<close>

datatype yaml =
    YNull
  | YBool bool
  | YInt int
  | YStr string
  | YList "yaml list"
  | YDict "(yaml \<times> yaml) list"

text \<open>
  The exceptions of the program. \<open>FileNotFoundError\<close> is the only one that the code
  catches by name; the others are told apart so that a run shows which statement raised.
\<close>

datatype error =
    FileNotFoundError string
  | IsADirectoryError string
  | NotADirectoryError string
  | FileExistsError string
  | YAMLError string
  | AttributeError
  | TypeError
  | ValueError
  | TemplateError string
  | TimeoutExpired
  | OtherError string

text \<open>A \<^verbatim>\<open>pathlib.Path\<close> is the list of its components; a leading \<open>''/''\<close> marks an absolute path.\<close>

type_synonym path = "string list"

fun split_slash :: "string \<Rightarrow> string list" where
  "split_slash [] = [[]]"
| "split_slash (c # cs) =
     (if c = CHR ''/'' then [] # split_slash cs
      else (case split_slash cs of [] \<Rightarrow> [[c]] | r # rs \<Rightarrow> (c # r) # rs))"

definition path_parts :: "string \<Rightarrow> path" where
  "path_parts s = filter (\<lambda>c. c \<noteq> [] \<and> c \<noteq> ''.'') (split_slash s)"

definition path_div :: "path \<Rightarrow> string \<Rightarrow> path" where
  \<comment> \<open>\<^verbatim>\<open>p / s\<close>: an absolute right operand replaces the left one.\<close>
  "path_div p s =
     (if s \<noteq> [] \<and> hd s = CHR ''/'' then ''/'' # path_parts s else p @ path_parts s)"

fun join_slash :: "string list \<Rightarrow> string" where
  "join_slash [] = []"
| "join_slash [c] = c"
| "join_slash (c # cs) = c @ ''/'' @ join_slash cs"

fun show_path :: "path \<Rightarrow> string" where
  "show_path [] = ''.''"
| "show_path (c # cs) =
     (if c = ''/'' then ''/'' @ join_slash cs else join_slash (c # cs))"

text \<open>
  The world the program runs in: regular files with their text (in directory order),
  the directories, what has been printed so far (one entry for each \<^verbatim>\<open>print\<close>), and a
  counter of the clock readings. Permissions and links are not modelled.
\<close>

record world =
  files :: "(path \<times> string) list"
  dirs :: "path list"
  stdout :: "string list"
  tick :: nat

definition print :: "string \<Rightarrow> world \<Rightarrow> world" where
  "print s w = w\<lparr>stdout := stdout w @ [s]\<rparr>"

text \<open>
  The operating system resolves a path when it is used: a component \<open>..\<close> steps back to
  the parent of the directory reached so far, which must exist. (pathlib keeps \<open>..\<close> in a
  path; the keys of \<open>files\<close> and the entries of \<open>dirs\<close> are resolved paths.) Above the
  current directory, whose place is not known, the steps are kept as they are. Links are
  not modelled.
\<close>

definition is_dir_at :: "world \<Rightarrow> path \<Rightarrow> bool" where
  \<comment> \<open>The current directory \<open>[]\<close>, the directories above it and the root are always there.\<close>
  "is_dir_at w q = (list_all (\<lambda>c. c = ''..'') q \<or> q = [''/''] \<or> q \<in> set (dirs w))"

fun walk :: "world \<Rightarrow> path \<Rightarrow> path \<Rightarrow> path option" where
  "walk w acc [] = Some acc"
| "walk w acc (c # cs) =
     (if c = ''..'' then
        (if list_all (\<lambda>c. c = ''..'') acc then walk w (acc @ [c]) cs
         else if acc = [''/''] then walk w acc cs
         else if acc \<in> set (dirs w) then walk w (butlast acc) cs
         else None)
      else walk w (acc @ [c]) cs)"

definition resolve :: "world \<Rightarrow> path \<Rightarrow> path option" where
  "resolve w p = walk w [] p"

definition is_file :: "world \<Rightarrow> path \<Rightarrow> bool" where
  "is_file w p = (case resolve w p of None \<Rightarrow> False | Some q \<Rightarrow> map_of (files w) q \<noteq> None)"

definition is_dir :: "world \<Rightarrow> path \<Rightarrow> bool" where
  "is_dir w p = (case resolve w p of None \<Rightarrow> False | Some q \<Rightarrow> is_dir_at w q)"

definition path_exists :: "world \<Rightarrow> path \<Rightarrow> bool" where
  "path_exists w p = (is_file w p \<or> is_dir w p)"

definition open_read :: "world \<Rightarrow> path \<Rightarrow> error + string" where
  "open_read w p =
     (case resolve w p of
        None \<Rightarrow> Inl (FileNotFoundError (show_path p))
      | Some q \<Rightarrow>
          (if is_dir_at w q then Inl (IsADirectoryError (show_path p))
           else (case map_of (files w) q of
                   None \<Rightarrow> Inl (FileNotFoundError (show_path p))
                 | Some text \<Rightarrow> Inr text)))"

definition ancestors :: "path \<Rightarrow> path list" where
  \<comment> \<open>The proper, non-empty prefixes of a path, shortest first.\<close>
  "ancestors p = map (\<lambda>n. take n p) [1..<length p]"

fun mkdirs :: "world \<Rightarrow> path \<Rightarrow> path list \<Rightarrow> error + world" where
  \<comment> \<open>The directories of the list are made one after the other, unless they exist.\<close>
  "mkdirs w p [] = Inr w"
| "mkdirs w p (q # qs) =
     (case resolve w q of
        None \<Rightarrow> Inl (FileNotFoundError (show_path p))
      | Some r \<Rightarrow>
          (if map_of (files w) r \<noteq> None
           then Inl (if qs = [] then FileExistsError (show_path p)
                     else NotADirectoryError (show_path p))
           else if is_dir_at w r then mkdirs w p qs
           else mkdirs (w\<lparr>dirs := dirs w @ [r]\<rparr>) p qs))"

definition mkdir_p :: "world \<Rightarrow> path \<Rightarrow> error + world" where
  \<comment> \<open>\<^verbatim>\<open>p.mkdir(parents=True, exist_ok=True)\<close>\<close>
  "mkdir_p w p = mkdirs w p (ancestors p @ [p])"

definition open_write :: "world \<Rightarrow> path \<Rightarrow> string \<Rightarrow> error + world" where
  \<comment> \<open>\<^verbatim>\<open>with open(p, 'w') as f: f.write(text)\<close>\<close>
  "open_write w p text =
     (case resolve w p of
        None \<Rightarrow> Inl (FileNotFoundError (show_path p))
      | Some q \<Rightarrow>
          (if is_dir_at w q then Inl (IsADirectoryError (show_path p))
           else if map_of (files w) (butlast q) \<noteq> None then Inl (NotADirectoryError (show_path p))
           else if \<not> is_dir_at w (butlast q) then Inl (FileNotFoundError (show_path p))
           else Inr (w\<lparr>files := AList.update q text (files w)\<rparr>)))"

definition unlink :: "world \<Rightarrow> path \<Rightarrow> error + world" where
  "unlink w p =
     (case resolve w p of
        None \<Rightarrow> Inl (FileNotFoundError (show_path p))
      | Some q \<Rightarrow>
          (if map_of (files w) q \<noteq> None then Inr (w\<lparr>files := AList.delete q (files w)\<rparr>)
           else if is_dir_at w q then Inl (IsADirectoryError (show_path p))
           else Inl (FileNotFoundError (show_path p))))"

definition newline :: string where
  "newline = [CHR 0x0A]"

section \<open>Python's dynamic operations on the loaded values\<close>

fun truthy :: "yaml \<Rightarrow> bool" where
  "truthy YNull = False"
| "truthy (YBool b) = b"
| "truthy (YInt i) = (i \<noteq> 0)"
| "truthy (YStr s) = (s \<noteq> [])"
| "truthy (YList xs) = (xs \<noteq> [])"
| "truthy (YDict d) = (d \<noteq> [])"

fun hashable :: "yaml \<Rightarrow> bool" where
  "hashable (YList xs) = False"
| "hashable (YDict d) = False"
| "hashable v = True"

fun key_norm :: "yaml \<Rightarrow> yaml" where
  \<comment> \<open>As dictionary keys, \<^verbatim>\<open>True\<close> is \<^verbatim>\<open>1\<close> and \<^verbatim>\<open>False\<close> is \<^verbatim>\<open>0\<close>.\<close>
  "key_norm (YBool b) = YInt (if b then 1 else 0)"
| "key_norm v = v"

fun dict_get :: "(yaml \<times> yaml) list \<Rightarrow> yaml \<Rightarrow> yaml option" where
  "dict_get [] k = None"
| "dict_get ((a, x) # d) k = (if key_norm a = key_norm k then Some x else dict_get d k)"

fun dict_set :: "yaml \<Rightarrow> yaml \<Rightarrow> (yaml \<times> yaml) list \<Rightarrow> (yaml \<times> yaml) list" where
  \<comment> \<open>\<^verbatim>\<open>d[k] = v\<close>: an existing key keeps its place (and its key object), a new one goes last.\<close>
  "dict_set k v [] = [(k, v)]"
| "dict_set k v ((a, x) # d) =
     (if key_norm a = key_norm k then (a, v) # d else (a, x) # dict_set k v d)"

definition py_get :: "yaml \<Rightarrow> yaml \<Rightarrow> yaml \<Rightarrow> error + yaml" where
  \<comment> \<open>\<^verbatim>\<open>obj.get(key, default)\<close>: only a dict has \<^verbatim>\<open>get\<close>, and the key is hashed first.\<close>
  "py_get obj key dflt =
     (case obj of
        YDict d \<Rightarrow>
          (if hashable key
           then Inr (case dict_get d key of None \<Rightarrow> dflt | Some v \<Rightarrow> v)
           else Inl TypeError)
      | _ \<Rightarrow> Inl AttributeError)"

fun py_iter :: "yaml \<Rightarrow> error + yaml list" where
  \<comment> \<open>\<^verbatim>\<open>for x in v\<close>: a string yields its characters, a dict its keys.\<close>
  "py_iter (YList xs) = Inr xs"
| "py_iter (YStr s) = Inr (map (\<lambda>c. YStr [c]) s)"
| "py_iter (YDict d) = Inr (map fst d)"
| "py_iter v = Inl TypeError"

fun pair_of :: "yaml \<Rightarrow> error + (yaml \<times> yaml)" where
  \<comment> \<open>One element of a sequence given to \<^verbatim>\<open>dict.update\<close>: an iterable of length two.\<close>
  "pair_of (YList [k, v]) = (if hashable k then Inr (k, v) else Inl TypeError)"
| "pair_of (YList xs) = Inl ValueError"
| "pair_of (YStr [a, b]) = Inr (YStr [a], YStr [b])"
| "pair_of (YStr s) = Inl ValueError"
| "pair_of (YDict [(a, x), (b, y)]) = Inr (a, b)"
| "pair_of (YDict d) = Inl ValueError"
| "pair_of v = Inl TypeError"

fun pairs_of :: "yaml list \<Rightarrow> error + (yaml \<times> yaml) list" where
  "pairs_of [] = Inr []"
| "pairs_of (x # xs) =
     (case pair_of x of
        Inl e \<Rightarrow> Inl e
      | Inr p \<Rightarrow> (case pairs_of xs of Inl e \<Rightarrow> Inl e | Inr ps \<Rightarrow> Inr (p # ps)))"

definition dict_merge :: "(yaml \<times> yaml) list \<Rightarrow> (yaml \<times> yaml) list \<Rightarrow> (yaml \<times> yaml) list" where
  \<comment> \<open>The entries of the second dict are stored into the first, in their order.\<close>
  "dict_merge b v = fold (\<lambda>(k, x). dict_set k x) v b"

definition py_update :: "yaml \<Rightarrow> yaml \<Rightarrow> error + yaml" where
  \<comment> \<open>\<^verbatim>\<open>obj.update(other)\<close>, returning the updated object.\<close>
  "py_update obj other =
     (case obj of
        YDict b \<Rightarrow>
          (case other of
             YDict v \<Rightarrow> Inr (YDict (dict_merge b v))
           | YList xs \<Rightarrow>
               (case pairs_of xs of Inl e \<Rightarrow> Inl e | Inr ps \<Rightarrow> Inr (YDict (dict_merge b ps)))
           | YStr s \<Rightarrow> (if s = [] then Inr (YDict b) else Inl ValueError)
           | _ \<Rightarrow> Inl TypeError)
      | _ \<Rightarrow> Inl AttributeError)"

section \<open>The collaborators outside the program\<close>

record render_context =
  ctx_global :: yaml
  ctx_node :: yaml
  ctx_peers :: "yaml list"
  generated_by :: string
  generated_at :: string

text \<open>
  The parser, the template engine, the clock, the checker and the naming of temporary
  files are not part of the program; it is verified for every choice of them.
  \<^item> \<open>safe_load\<close> is \<^verbatim>\<open>yaml.safe_load\<close> on the text of a file: the value, or the
    message of the \<open>YAMLError\<close> it raises;
  \<^item> \<open>py_repr\<close> is \<^verbatim>\<open>str()\<close> of a value that is not a string, \<open>str_exc\<close> the text of
    an exception (both as they appear in an f-string);
  \<^item> \<open>render_template\<close> is \<^verbatim>\<open>env.get_template("bird.conf.j2").render(**context)\<close>, which
    reads the templates directory;
  \<^item> \<open>isoformat_now\<close> gives the text of the n-th clock reading;
  \<^item> \<open>run_bird\<close> is \<^verbatim>\<open>subprocess.run(['bird', '-p', '-c', path], ...)\<close>: the return code
    and the captured error stream, or the exception raised (\<open>FileNotFoundError\<close> when the
    binary is not installed, \<open>TimeoutExpired\<close> after 30 seconds), and the world the
    process leaves;
  \<^item> \<open>temp_name\<close> is the name of the file that \<^verbatim>\<open>tempfile.NamedTemporaryFile\<close> creates
    (an absolute, resolved path), or the exception it raises; \<open>temp_write\<close> is what writing
    and closing that file raises, if anything (no space left, a text that cannot be
    encoded), with what has reached the file;
  \<^item> \<open>script_dir\<close> is \<^verbatim>\<open>Path(__file__).parent\<close>, \<open>help_text\<close> what \<^verbatim>\<open>print_help\<close> prints.
\<close>

record env =
  safe_load :: "string \<Rightarrow> string + yaml"
  py_repr :: "yaml \<Rightarrow> string"
  str_exc :: "error \<Rightarrow> string"
  render_template :: "world \<Rightarrow> path \<Rightarrow> render_context \<Rightarrow> error + string"
  isoformat_now :: "nat \<Rightarrow> string"
  run_bird :: "world \<Rightarrow> path \<Rightarrow> (error + (int \<times> string)) \<times> world"
  temp_name :: "world \<Rightarrow> error + path"
  temp_write :: "world \<Rightarrow> path \<Rightarrow> string \<Rightarrow> (error \<times> string) option"
  script_dir :: path
  help_text :: string

definition py_str :: "env \<Rightarrow> yaml \<Rightarrow> string" where
  "py_str E v = (case v of YStr s \<Rightarrow> s | _ \<Rightarrow> py_repr E v)"

section \<open>PeeringManager: the record store\<close>

record manager =
  base_dir :: path

definition templates_dir :: "manager \<Rightarrow> path" where
  "templates_dir m = base_dir m @ [''templates'']"

definition data_dir :: "manager \<Rightarrow> path" where
  "data_dir m = base_dir m @ [''data'']"

definition output_dir_default :: "manager \<Rightarrow> path" where
  \<comment> \<open>\<^verbatim>\<open>self.output_dir\<close>\<close>
  "output_dir_default m = base_dir m @ [''output'']"

definition load_yaml :: "env \<Rightarrow> world \<Rightarrow> path \<Rightarrow> error + yaml" where
  "load_yaml E w p =
     (if \<not> path_exists w p then Inl (FileNotFoundError (''YAML file not found: '' @ show_path p))
      else (case open_read w p of
              Inl e \<Rightarrow> Inl e
            | Inr text \<Rightarrow>
                (case safe_load E text of
                   Inl msg \<Rightarrow> Inl (YAMLError msg)
                 | Inr v \<Rightarrow> Inr (if truthy v then v else YDict []))))"

definition global_path :: "manager \<Rightarrow> path" where
  "global_path m = data_dir m @ [''global.yaml'']"

definition load_global_config :: "env \<Rightarrow> manager \<Rightarrow> world \<Rightarrow> error + yaml" where
  "load_global_config E m w =
     (if \<not> path_exists w (global_path m)
      then Inl (FileNotFoundError
                 (''Global configuration not found: '' @ show_path (global_path m) @ newline
                  @ ''Create data/global.yaml with AS number, anycast prefixes, etc.''))
      else load_yaml E w (global_path m))"

definition peer_path :: "env \<Rightarrow> manager \<Rightarrow> yaml \<Rightarrow> path" where
  "peer_path E m peer_name = path_div (data_dir m @ [''peers'']) (py_str E peer_name @ ''.yaml'')"

definition load_peer :: "env \<Rightarrow> manager \<Rightarrow> world \<Rightarrow> yaml \<Rightarrow> error + yaml" where
  "load_peer E m w peer_name = load_yaml E w (peer_path E m peer_name)"

definition node_path :: "manager \<Rightarrow> string \<Rightarrow> path" where
  "node_path m node_name = path_div (data_dir m @ [''nodes'']) (node_name @ ''.yaml'')"

definition load_node :: "env \<Rightarrow> manager \<Rightarrow> world \<Rightarrow> string \<Rightarrow> error + yaml" where
  "load_node E m w node_name = load_yaml E w (node_path m node_name)"

definition glob_yaml :: "world \<Rightarrow> path \<Rightarrow> string list" where
  \<comment> \<open>\<^verbatim>\<open>[f.stem for f in d.glob("*.yaml")]\<close>: the entries of the directory itself, files
      before directories; the stem of the name \<^verbatim>\<open>.yaml\<close> is the whole name.\<close>
  "glob_yaml w d =
     (case resolve w d of
        None \<Rightarrow> []
      | Some r \<Rightarrow>
          map (\<lambda>n. if n = ''.yaml'' then n else take (length n - 5) n)
            (filter (\<lambda>n. 5 \<le> length n \<and> drop (length n - 5) n = ''.yaml'')
               (map last
                  (filter (\<lambda>p. p \<noteq> [] \<and> butlast p = r) (map fst (files w) @ dirs w)))))"

definition list_nodes :: "manager \<Rightarrow> world \<Rightarrow> string list" where
  "list_nodes m w = glob_yaml w (data_dir m @ [''nodes''])"

definition list_peers :: "manager \<Rightarrow> world \<Rightarrow> string list" where
  "list_peers m w = glob_yaml w (data_dir m @ [''peers''])"

definition validate_directories :: "manager \<Rightarrow> world \<Rightarrow> error + unit" where
  "validate_directories m w =
     (case filter (\<lambda>d. \<not> path_exists w d)
             [templates_dir m, data_dir m, data_dir m @ [''peers''], data_dir m @ [''nodes'']] of
        [] \<Rightarrow> Inr ()
      | d # _ \<Rightarrow> Inl (FileNotFoundError (''Required directory not found: '' @ show_path d)))"

definition init :: "env \<Rightarrow> world \<Rightarrow> path option \<Rightarrow> error + manager" where
  \<comment> \<open>\<^verbatim>\<open>PeeringManager(base_dir)\<close>\<close>
  "init E w bd =
     (let m = \<lparr>base_dir = (case bd of None \<Rightarrow> script_dir E | Some d \<Rightarrow> d)\<rparr>
      in (case validate_directories m w of Inl e \<Rightarrow> Inl e | Inr _ \<Rightarrow> Inr m))"

section \<open>The context resolver\<close>

definition resolve_peer :: "env \<Rightarrow> manager \<Rightarrow> world \<Rightarrow> yaml \<Rightarrow> yaml \<Rightarrow> error + yaml option" where
  \<comment> \<open>The statements inside \<^verbatim>\<open>try\<close>: the peer to append, if it is enabled.\<close>
  "resolve_peer E m w node_config peer_name =
     (case load_peer E m w peer_name of
        Inl e \<Rightarrow> Inl e
      | Inr peer \<Rightarrow>
     (case py_get node_config (YStr ''overrides'') (YDict []) of
        Inl e \<Rightarrow> Inl e
      | Inr all_overrides \<Rightarrow>
     (case py_get all_overrides peer_name (YDict []) of
        Inl e \<Rightarrow> Inl e
      | Inr overrides \<Rightarrow>
     (case py_update peer overrides of
        Inl e \<Rightarrow> Inl e
      | Inr peer' \<Rightarrow>
     (case py_get peer' (YStr ''enabled'') (YBool True) of
        Inl e \<Rightarrow> Inl e
      | Inr enabled \<Rightarrow> Inr (if truthy enabled then Some peer' else None))))))"

fun resolve_peers ::
  "env \<Rightarrow> manager \<Rightarrow> yaml \<Rightarrow> yaml list \<Rightarrow> yaml list \<Rightarrow> world \<Rightarrow> (error + yaml list) \<times> world" where
  \<comment> \<open>The \<^verbatim>\<open>for\<close> loop of \<^verbatim>\<open>build_context\<close>, with the list \<^verbatim>\<open>peers\<close> built so far.\<close>
  "resolve_peers E m node_config [] peers w = (Inr peers, w)"
| "resolve_peers E m node_config (peer_name # rest) peers w =
     (case resolve_peer E m w node_config peer_name of
        Inl (FileNotFoundError msg) \<Rightarrow>
          resolve_peers E m node_config rest peers
            (print (''Warning: Peer configuration not found: '' @ py_str E peer_name) w)
      | Inl e \<Rightarrow> (Inl e, w)
      | Inr None \<Rightarrow> resolve_peers E m node_config rest peers w
      | Inr (Some peer) \<Rightarrow> resolve_peers E m node_config rest (peers @ [peer]) w)"

definition build_context ::
  "env \<Rightarrow> manager \<Rightarrow> string \<Rightarrow> world \<Rightarrow> (error + render_context) \<times> world" where
  "build_context E m node_name w =
     (case load_global_config E m w of
        Inl e \<Rightarrow> (Inl e, w)
      | Inr global_config \<Rightarrow>
     (case load_node E m w node_name of
        Inl e \<Rightarrow> (Inl e, w)
      | Inr node_config \<Rightarrow>
     (case py_get node_config (YStr ''peers'') (YList []) of
        Inl e \<Rightarrow> (Inl e, w)
      | Inr peer_names \<Rightarrow>
     (case py_iter peer_names of
        Inl e \<Rightarrow> (Inl e, w)
      | Inr names \<Rightarrow>
     (case resolve_peers E m node_config names [] w of
        (Inl e, w') \<Rightarrow> (Inl e, w')
      | (Inr peers, w') \<Rightarrow>
          (Inr \<lparr>ctx_global = global_config, ctx_node = node_config, ctx_peers = peers,
                generated_by = ''AEGIS Peering Manager'',
                generated_at = isoformat_now E (tick w')\<rparr>,
           w'\<lparr>tick := Suc (tick w')\<rparr>))))))"

section \<open>Rendering and output\<close>

definition render_config ::
  "env \<Rightarrow> manager \<Rightarrow> string \<Rightarrow> world \<Rightarrow> (error + string) \<times> world" where
  "render_config E m node_name w =
     (case build_context E m node_name w of
        (Inl e, w') \<Rightarrow> (Inl e, w')
      | (Inr ctx, w') \<Rightarrow> (render_template E w' (templates_dir m) ctx, w'))"

definition parent :: "path \<Rightarrow> path" where
  "parent p = (if p = [''/''] then p else butlast p)"

definition generate ::
  "env \<Rightarrow> manager \<Rightarrow> string \<Rightarrow> path option \<Rightarrow> world \<Rightarrow> (error + string) \<times> world" where
  "generate E m node_name output_path w =
     (case render_config E m node_name w of
        (Inl e, w1) \<Rightarrow> (Inl e, w1)
      | (Inr config, w1) \<Rightarrow>
          (case output_path of
             None \<Rightarrow> (Inr config, w1)
           | Some p \<Rightarrow>
               (case mkdir_p w1 (parent p) of
                  Inl e \<Rightarrow> (Inl e, w1)
                | Inr w2 \<Rightarrow>
                    (case open_write w2 p config of
                       Inl e \<Rightarrow> (Inl e, w2)
                     | Inr w3 \<Rightarrow> (Inr config, print (''Generated: '' @ show_path p) w3)))))"

fun generate_nodes ::
  "env \<Rightarrow> manager \<Rightarrow> path \<Rightarrow> string list \<Rightarrow> (string \<times> string) list \<Rightarrow> world
     \<Rightarrow> (string \<times> string) list \<times> world" where
  \<comment> \<open>The \<^verbatim>\<open>for\<close> loop of \<^verbatim>\<open>generate_all\<close>, with the dict \<^verbatim>\<open>configs\<close> built so far.\<close>
  "generate_nodes E m output_dir [] configs w = (configs, w)"
| "generate_nodes E m output_dir (node_name # rest) configs w =
     (case generate E m node_name
             (Some (path_div (path_div output_dir node_name) ''bird.conf'')) w of
        (Inl e, w') \<Rightarrow>
          generate_nodes E m output_dir rest configs
            (print (''Error generating config for '' @ node_name @ '': '' @ str_exc E e) w')
      | (Inr config, w') \<Rightarrow>
          generate_nodes E m output_dir rest (AList.update node_name config configs) w')"

definition generate_all ::
  "env \<Rightarrow> manager \<Rightarrow> path option \<Rightarrow> world \<Rightarrow> (string \<times> string) list \<times> world" where
  "generate_all E m output_dir w =
     generate_nodes E m (case output_dir of None \<Rightarrow> output_dir_default m | Some d \<Rightarrow> d)
       (list_nodes m w) [] w"

section \<open>The external validator\<close>

definition validate_config :: "env \<Rightarrow> string \<Rightarrow> world \<Rightarrow> (error + bool) \<times> world" where
  \<comment> \<open>The file is created and written before the \<^verbatim>\<open>try\<close>; only what follows is under
      \<^verbatim>\<open>finally: os.unlink(temp_path)\<close>.\<close>
  "validate_config E config w =
     (case temp_name E w of
        Inl e \<Rightarrow> (Inl e, w)
      | Inr temp_path \<Rightarrow>
     (case temp_write E w temp_path config of
        Some (e, written) \<Rightarrow>
          (Inl e, w\<lparr>files := AList.update temp_path written (files w)\<rparr>)
      | None \<Rightarrow>
          (let (outcome, w1) = run_bird E (w\<lparr>files := AList.update temp_path config (files w)\<rparr>)
                             temp_path;
               (result, w2) =
                 (case outcome of
                    Inr (returncode, err) \<Rightarrow>
                      (if returncode = 0 then (Inr True, print ''Configuration is valid'' w1)
                       else (Inr False,
                             print (''Configuration validation failed:'' @ newline @ err) w1))
                  | Inl (FileNotFoundError msg) \<Rightarrow>
                      (Inr True,
                       print ''Install BIRD to enable config validation: apt install bird2''
                         (print ''Warning: BIRD not installed, skipping validation'' w1))
                  | Inl TimeoutExpired \<Rightarrow>
                      (Inr False, print ''Warning: BIRD validation timed out'' w1)
                  | Inl e \<Rightarrow> (Inl e, w1))
           in (case unlink w2 temp_path of
                 Inl e \<Rightarrow> (Inl e, w2)
               | Inr w3 \<Rightarrow> (result, w3)))))"

section \<open>The command line\<close>

record args =
  arg_node :: "string option"
  arg_all :: bool
  arg_output :: "string option"
  arg_output_dir :: string
  arg_validate :: bool
  arg_list :: bool
  arg_base_dir :: "string option"
  arg_dry_run :: bool

definition given :: "string option \<Rightarrow> bool" where
  \<comment> \<open>The truth value of an optional argument: neither \<^verbatim>\<open>None\<close> nor the empty string.\<close>
  "given a = (case a of None \<Rightarrow> False | Some s \<Rightarrow> s \<noteq> [])"

definition Path :: "string \<Rightarrow> path" where
  "Path s = path_div [] s"

definition rule60 :: string where
  \<comment> \<open>\<^verbatim>\<open>'=' * 60\<close>\<close>
  "rule60 = replicate 60 (CHR ''='')"

fun print_configs :: "(string \<times> string) list \<Rightarrow> world \<Rightarrow> world" where
  "print_configs [] w = w"
| "print_configs ((node_name, config) # rest) w =
     print_configs rest
       (print config
         (print rule60
           (print (''# Configuration for: '' @ node_name)
             (print (newline @ rule60) w))))"

fun validate_configs ::
  "env \<Rightarrow> (string \<times> string) list \<Rightarrow> world \<Rightarrow> (error + unit) \<times> world" where
  "validate_configs E [] w = (Inr (), w)"
| "validate_configs E ((node_name, config) # rest) w =
     (case validate_config E config (print (newline @ ''Validating '' @ node_name @ '':'') w) of
        (Inl e, w') \<Rightarrow> (Inl e, w')
      | (Inr ok, w') \<Rightarrow> validate_configs E rest w')"

definition main_body :: "env \<Rightarrow> args \<Rightarrow> world \<Rightarrow> (error + nat) \<times> world" where
  \<comment> \<open>The \<^verbatim>\<open>try\<close> block of \<^verbatim>\<open>main\<close>; the result is the exit status when nothing is raised.\<close>
  "main_body E a w =
     (case init E w (if given (arg_base_dir a) then Some (Path (the (arg_base_dir a))) else None) of
        Inl e \<Rightarrow> (Inl e, w)
      | Inr manager \<Rightarrow>
          if arg_list a then
            (Inr 0,
             fold (\<lambda>peer. print (''  - '' @ peer)) (list_peers manager w)
               (print (newline @ ''Available peers:'')
                 (fold (\<lambda>node. print (''  - '' @ node)) (list_nodes manager w)
                   (print ''Available nodes:'' w))))
          else if arg_all a then
            (let (configs, w1) =
                   generate_all E manager
                     (if \<not> arg_dry_run a then Some (Path (arg_output_dir a)) else None) w;
                 w2 = (if arg_dry_run a then print_configs configs w1 else w1)
             in if arg_validate a then
                  (case validate_configs E configs
                          (print (newline @ ''Validating configurations...'') w2) of
                     (Inl e, w3) \<Rightarrow> (Inl e, w3)
                   | (Inr _, w3) \<Rightarrow> (Inr 0, w3))
                else (Inr 0, w2))
          else if given (arg_node a) then
            (case generate E manager (the (arg_node a))
                    (if given (arg_output a) \<and> \<not> arg_dry_run a
                     then Some (Path (the (arg_output a))) else None) w of
               (Inl e, w1) \<Rightarrow> (Inl e, w1)
             | (Inr config, w1) \<Rightarrow>
                 (let w2 = (if arg_dry_run a \<or> \<not> given (arg_output a)
                            then print config w1 else w1)
                  in if arg_validate a then
                       (case validate_config E config w2 of
                          (Inl e, w3) \<Rightarrow> (Inl e, w3)
                        | (Inr _, w3) \<Rightarrow> (Inr 0, w3))
                     else (Inr 0, w2)))
          else (Inr 1, print (help_text E) w))"

definition main :: "env \<Rightarrow> args \<Rightarrow> world \<Rightarrow> nat \<times> world" where
  \<comment> \<open>Both handlers print the error and exit with status 1 (the traceback of the second
      goes to the error stream, which is not modelled).\<close>
  "main E a w =
     (case main_body E a w of
        (Inl e, w') \<Rightarrow> (1, print (''Error: '' @ str_exc E e) w')
      | (Inr status, w') \<Rightarrow> (status, w'))"

section \<open>A small installation\<close>

text \<open>
  The scenario of the specification: node \<open>edge1\<close> with peers \<open>p1\<close> and \<open>p2\<close>, the second
  disabled by an override; \<open>edge2\<close> refers to a peer \<open>ghost\<close> that has no file,
  \<open>edge3\<close> is an empty document, and peer \<open>p3\<close> is disabled in its own record. The
  parser of the example knows these documents only.
\<close>

definition ex_documents :: "(string \<times> yaml) list" where
  "ex_documents =
     [(''asn: 65000'', YDict [(YStr ''asn'', YInt 65000)]),
      (''edge1'',
         YDict [(YStr ''peers'', YList [YStr ''p1'', YStr ''p2'']),
                (YStr ''overrides'',
                   YDict [(YStr ''p2'', YDict [(YStr ''enabled'', YBool False)])])]),
      (''edge2'', YDict [(YStr ''peers'', YList [YStr ''ghost'', YStr ''p1''])]),
      (''edge4'',
         YDict [(YStr ''peers'', YList [YStr ''p3'']),
                (YStr ''overrides'',
                   YDict [(YStr ''p3'', YDict [(YStr ''enabled'', YBool True)])])]),
      ([], YNull),
      (''peer1'', YDict [(YStr ''address'', YStr ''10.0.0.1''), (YStr ''enabled'', YBool True)]),
      (''peer2'', YDict [(YStr ''address'', YStr ''10.0.0.2''), (YStr ''enabled'', YBool True)]),
      (''peer3'', YDict [(YStr ''address'', YStr ''10.0.0.3''), (YStr ''enabled'', YBool False)])]"

definition ex_address :: "yaml \<Rightarrow> string" where
  "ex_address p =
     (case p of
        YDict d \<Rightarrow> (case dict_get d (YStr ''address'') of Some (YStr s) \<Rightarrow> s | _ \<Rightarrow> ''?'')
      | _ \<Rightarrow> ''?'')"

definition ex_env :: env where
  "ex_env =
     \<lparr>safe_load = (\<lambda>t. case map_of ex_documents t of
                          None \<Rightarrow> Inl t | Some v \<Rightarrow> Inr v),
      py_repr = (\<lambda>v. ''?''),
      str_exc = (\<lambda>e. case e of FileNotFoundError msg \<Rightarrow> msg | _ \<Rightarrow> ''error''),
      render_template = (\<lambda>w d ctx. Inr (concat (map ex_address (ctx_peers ctx)))),
      isoformat_now = (\<lambda>n. ''2024-01-01T00:00:00+00:00''),
      run_bird = (\<lambda>w p. (Inr (0, []), w)),
      temp_name = (\<lambda>w. Inr [''/'', ''tmp'', ''tmpbird.conf'']),
      temp_write = (\<lambda>w p t. None),
      script_dir = [''/'', ''srv''],
      help_text = ''usage''\<rparr>"

definition ex_manager :: manager where
  "ex_manager = \<lparr>base_dir = [''/'', ''srv'']\<rparr>"

definition ex_world :: world where
  "ex_world =
     \<lparr>files =
        [([''/'', ''srv'', ''data'', ''global.yaml''], ''asn: 65000''),
         ([''/'', ''srv'', ''data'', ''nodes'', ''edge1.yaml''], ''edge1''),
         ([''/'', ''srv'', ''data'', ''nodes'', ''edge2.yaml''], ''edge2''),
         ([''/'', ''srv'', ''data'', ''nodes'', ''edge3.yaml''], []),
         ([''/'', ''srv'', ''data'', ''peers'', ''p1.yaml''], ''peer1''),
         ([''/'', ''srv'', ''data'', ''peers'', ''p2.yaml''], ''peer2''),
         ([''/'', ''srv'', ''data'', ''peers'', ''p3.yaml''], ''peer3''),
         ([''/'', ''srv'', ''templates'', ''bird.conf.j2''], ''template'')],
      dirs =
        [[''/'', ''srv''], [''/'', ''srv'', ''data''], [''/'', ''srv'', ''data'', ''nodes''],
         [''/'', ''srv'', ''data'', ''peers''], [''/'', ''srv'', ''templates''], [''/'', ''tmp'']],
      stdout = [],
      tick = 0\<rparr>"

definition ex_blank_world :: world where
  \<comment> \<open>The same installation with every document empty.\<close>
  "ex_blank_world = ex_world\<lparr>files := map (\<lambda>(p, text). (p, [])) (files ex_world)\<rparr>"

definition ex_world_reordered :: world where
  \<comment> \<open>The installation with its directory entries in the opposite order.\<close>
  "ex_world_reordered = ex_world\<lparr>files := rev (files ex_world), dirs := rev (dirs ex_world)\<rparr>"

definition ex_edge1 :: yaml where
  \<comment> \<open>The record of node \<open>edge1\<close>.\<close>
  "ex_edge1 = the (map_of ex_documents ''edge1'')"

definition ex_peer2 :: "(yaml \<times> yaml) list" where
  \<comment> \<open>The record of peer \<open>p2\<close>.\<close>
  "ex_peer2 = [(YStr ''address'', YStr ''10.0.0.2''), (YStr ''enabled'', YBool True)]"

definition ex_edge4 :: yaml where
  \<comment> \<open>A node that turns the disabled peer \<open>p3\<close> on.\<close>
  "ex_edge4 =
     YDict [(YStr ''peers'', YList [YStr ''p3'']),
            (YStr ''overrides'', YDict [(YStr ''p3'', YDict [(YStr ''enabled'', YBool True)])])]"

definition ex_edge2 :: "(yaml \<times> yaml) list" where
  \<comment> \<open>The record of node \<open>edge2\<close>, which has no overrides.\<close>
  "ex_edge2 = [(YStr ''peers'', YList [YStr ''ghost'', YStr ''p1''])]"

definition ex_peer1 :: "(yaml \<times> yaml) list" where
  \<comment> \<open>The record of peer \<open>p1\<close>.\<close>
  "ex_peer1 = [(YStr ''address'', YStr ''10.0.0.1''), (YStr ''enabled'', YBool True)]"

definition ex_failing_bird :: env where
  \<comment> \<open>The example with a checker that rejects every file.\<close>
  "ex_failing_bird = ex_env\<lparr>run_bird := (\<lambda>w p. (Inr (1, ''syntax error''), w))\<rparr>"

definition ex_full_disk :: env where
  \<comment> \<open>The example on a full disk: the temporary file is created, and writing the text to
      it raises \<^verbatim>\<open>OSError\<close> with nothing written.\<close>
  "ex_full_disk =
     ex_env\<lparr>temp_write :=
              (\<lambda>w p t. Some (OtherError ''[Errno 28] No space left on device'', []))\<rparr>"

definition ex_world_edge4 :: world where
  \<comment> \<open>The installation with the node \<open>edge4\<close>, which turns the disabled peer \<open>p3\<close> on.\<close>
  "ex_world_edge4 =
     ex_world\<lparr>files := files ex_world
                  @ [([''/'', ''srv'', ''data'', ''nodes'', ''edge4.yaml''], ''edge4'')]\<rparr>"

definition ex_world_broken :: world where
  \<comment> \<open>The installation with one more node, whose document does not parse.\<close>
  "ex_world_broken =
     ex_world\<lparr>files := files ex_world
                  @ [([''/'', ''srv'', ''data'', ''nodes'', ''edge9.yaml''], ''{'')]\<rparr>"

definition ex_dry_run_all :: args where
  \<comment> \<open>\<^verbatim>\<open>generate.py --all --dry-run\<close>\<close>
  "ex_dry_run_all =
     \<lparr>arg_node = None, arg_all = True, arg_output = None, arg_output_dir = ''./output'',
      arg_validate = False, arg_list = False, arg_base_dir = None, arg_dry_run = True\<rparr>"

section \<open>Notions used in the statements\<close>

definition empty_document :: "env \<Rightarrow> world \<Rightarrow> path \<Rightarrow> bool" where
  \<comment> \<open>A file for whose text the parser returns \<^verbatim>\<open>None\<close>, as it does for a file of no
      bytes.\<close>
  "empty_document E w p =
     (case open_read w p of Inl e \<Rightarrow> False | Inr text \<Rightarrow> safe_load E text = Inr YNull)"

definition dict_keys_distinct :: "(yaml \<times> yaml) list \<Rightarrow> bool" where
  \<comment> \<open>The invariant of a dict: no two keys are equal as keys.\<close>
  "dict_keys_distinct d = distinct (map (\<lambda>(k, x). key_norm k) d)"

definition peer_present :: "env \<Rightarrow> manager \<Rightarrow> world \<Rightarrow> yaml \<Rightarrow> bool" where
  \<comment> \<open>The file of the peer exists.\<close>
  "peer_present E m w x = path_exists w (peer_path E m x)"

definition warning :: "env \<Rightarrow> yaml \<Rightarrow> string" where
  \<comment> \<open>The line printed for a peer without a file.\<close>
  "warning E x = ''Warning: Peer configuration not found: '' @ py_str E x"

definition contributes :: "env \<Rightarrow> manager \<Rightarrow> world \<Rightarrow> yaml \<Rightarrow> yaml \<Rightarrow> yaml option" where
  \<comment> \<open>What the turn of a peer appends to the list \<^verbatim>\<open>peers\<close>, if anything.\<close>
  "contributes E m w nc x = (case resolve_peer E m w nc x of Inr (Some p) \<Rightarrow> Some p | _ \<Rightarrow> None)"

definition peer_fails :: "env \<Rightarrow> manager \<Rightarrow> world \<Rightarrow> yaml \<Rightarrow> yaml \<Rightarrow> bool" where
  \<comment> \<open>The turn of the peer raises an exception that the loop does not catch.\<close>
  "peer_fails E m w nc x =
     (case resolve_peer E m w nc x of
        Inl (FileNotFoundError msg) \<Rightarrow> False | Inl e \<Rightarrow> True | Inr r \<Rightarrow> False)"

definition is_not_found :: "error \<Rightarrow> bool" where
  "is_not_found e = (case e of FileNotFoundError msg \<Rightarrow> True | _ \<Rightarrow> False)"

definition is_str :: "yaml \<Rightarrow> bool" where
  "is_str v = (case v of YStr s \<Rightarrow> True | _ \<Rightarrow> False)"

definition is_dict :: "yaml \<Rightarrow> bool" where
  "is_dict v = (case v of YDict d \<Rightarrow> True | _ \<Rightarrow> False)"

definition node_schema :: "yaml \<Rightarrow> bool" where
  \<comment> \<open>The schema of a node record: a mapping; \<open>peers\<close>, if present, is a list of strings;
      \<open>overrides\<close>, if present, is a mapping whose values are mappings.\<close>
  "node_schema nc =
     (case nc of
        YDict nd \<Rightarrow>
          (case dict_get nd (YStr ''peers'') of
             None \<Rightarrow> True | Some (YList xs) \<Rightarrow> list_all is_str xs | Some _ \<Rightarrow> False)
          \<and> (case dict_get nd (YStr ''overrides'') of
               None \<Rightarrow> True
             | Some (YDict od) \<Rightarrow> list_all (\<lambda>(k, v). is_dict v) od
             | Some _ \<Rightarrow> False)
      | _ \<Rightarrow> False)"

definition declared_peers :: "yaml \<Rightarrow> yaml list" where
  \<comment> \<open>The peer list of a node record (empty when there is none).\<close>
  "declared_peers nc =
     (case nc of
        YDict nd \<Rightarrow> (case dict_get nd (YStr ''peers'') of Some (YList xs) \<Rightarrow> xs | _ \<Rightarrow> [])
      | _ \<Rightarrow> [])"

definition override_for :: "yaml \<Rightarrow> yaml \<Rightarrow> (yaml \<times> yaml) list" where
  \<comment> \<open>The override of a node record for a peer (empty when there is none).\<close>
  "override_for nc x =
     (case nc of
        YDict nd \<Rightarrow>
          (case dict_get nd (YStr ''overrides'') of
             Some (YDict od) \<Rightarrow> (case dict_get od x of Some (YDict v) \<Rightarrow> v | _ \<Rightarrow> [])
           | _ \<Rightarrow> [])
      | _ \<Rightarrow> [])"

definition peer_record :: "env \<Rightarrow> manager \<Rightarrow> world \<Rightarrow> yaml \<Rightarrow> (yaml \<times> yaml) list option" where
  \<comment> \<open>The stored record of a peer: what its file loads to, when that is a mapping.\<close>
  "peer_record E m w x = (case load_peer E m w x of Inr (YDict b) \<Rightarrow> Some b | _ \<Rightarrow> None)"

definition effective_enabled :: "(yaml \<times> yaml) list \<Rightarrow> bool" where
  \<comment> \<open>The test \<^verbatim>\<open>peer.get('enabled', True)\<close> on a resolved record.\<close>
  "effective_enabled d = (case dict_get d (YStr ''enabled'') of None \<Rightarrow> True | Some e \<Rightarrow> truthy e)"

definition resolved_peer :: "env \<Rightarrow> manager \<Rightarrow> world \<Rightarrow> yaml \<Rightarrow> yaml \<Rightarrow> (yaml \<times> yaml) list option" where
  \<comment> \<open>The stored record with the override of the node merged over it.\<close>
  "resolved_peer E m w nc x =
     map_option (\<lambda>b. dict_merge b (override_for nc x)) (peer_record E m w x)"

definition peers_ok :: "env \<Rightarrow> manager \<Rightarrow> world \<Rightarrow> yaml list \<Rightarrow> bool" where
  \<comment> \<open>Every listed peer that has a file has a record.\<close>
  "peers_ok E m w names =
     list_all (\<lambda>x. peer_present E m w x \<longrightarrow> peer_record E m w x \<noteq> None) names"

definition well_formed :: "env \<Rightarrow> manager \<Rightarrow> world \<Rightarrow> string \<Rightarrow> bool" where
  \<comment> \<open>The global document and the node document are each absent or well-formed: they
      load, the node follows the schema and its peers that have a file have a record.\<close>
  "well_formed E m w node_name =
     ((case load_global_config E m w of Inl e \<Rightarrow> is_not_found e | Inr g \<Rightarrow> True)
      \<and> (case load_node E m w node_name of
           Inl e \<Rightarrow> is_not_found e
         | Inr nc \<Rightarrow> node_schema nc \<and> peers_ok E m w (declared_peers nc)))"

definition listed_peers :: "yaml \<Rightarrow> error + yaml list" where
  \<comment> \<open>What the loop of \<^verbatim>\<open>build_context\<close> iterates over.\<close>
  "listed_peers nc =
     (case py_get nc (YStr ''peers'') (YList []) of Inl e \<Rightarrow> Inl e | Inr pn \<Rightarrow> py_iter pn)"

definition resolved_sequence ::
  "(yaml \<Rightarrow> (yaml \<times> yaml) list option) \<Rightarrow> (yaml \<Rightarrow> (yaml \<times> yaml) list) \<Rightarrow> yaml list \<Rightarrow> yaml list" where
  \<comment> \<open>The specification's words: the names of \<open>P\<close>, in the order of \<open>P\<close>, whose record exists
      and whose resolved \<open>enabled\<close> is true, each with its override merged over its record.
      The store and the overrides are functions of the name, which have no order.\<close>
  "resolved_sequence base ov P =
     map (\<lambda>x. YDict (dict_merge (the (base x)) (ov x)))
       (filter (\<lambda>x. base x \<noteq> None \<and> effective_enabled (dict_merge (the (base x)) (ov x))) P)"

definition enabled_peers ::
  "(yaml \<Rightarrow> (yaml \<times> yaml) list option) \<Rightarrow> (yaml \<Rightarrow> (yaml \<times> yaml) list) \<Rightarrow> yaml list \<Rightarrow> yaml list" where
  \<comment> \<open>The specification's words: a peer of the list appears, as its resolved record, if and
      only if its record exists and its effective \<open>enabled\<close> value (\<open>enabled_value\<close> below:
      the override's, else the record's, else true) is true.\<close>
  "enabled_peers base ov P =
     map (\<lambda>x. YDict (dict_merge (the (base x)) (ov x)))
       (filter (\<lambda>x. base x \<noteq> None
                      \<and> truthy (case dict_get (ov x) (YStr ''enabled'') of
                                  Some e \<Rightarrow> e
                                | None \<Rightarrow> (case dict_get (the (base x)) (YStr ''enabled'') of
                                             Some e \<Rightarrow> e | None \<Rightarrow> YBool True))) P)"

definition enabled_value :: "(yaml \<times> yaml) list \<Rightarrow> (yaml \<times> yaml) list \<Rightarrow> yaml" where
  \<comment> \<open>The specification's words: the \<open>enabled\<close> field of the override if it has one, else
      that of the record, else true.\<close>
  "enabled_value b v =
     (case dict_get v (YStr ''enabled'') of
        Some e \<Rightarrow> e
      | None \<Rightarrow> (case dict_get b (YStr ''enabled'') of Some e \<Rightarrow> e | None \<Rightarrow> YBool True))"

definition with_temp :: "path \<Rightarrow> string \<Rightarrow> world \<Rightarrow> world" where
  \<comment> \<open>The world in which the file holds the text.\<close>
  "with_temp p text w = w\<lparr>files := AList.update p text (files w)\<rparr>"

definition removed :: "path \<Rightarrow> world \<Rightarrow> world" where
  \<comment> \<open>The world without the file.\<close>
  "removed p w = w\<lparr>files := AList.delete p (files w)\<rparr>"

definition error_line :: "env \<Rightarrow> string \<Rightarrow> error \<Rightarrow> string" where
  \<comment> \<open>The line printed for a node whose generation raised.\<close>
  "error_line E node_name e = ''Error generating config for '' @ node_name @ '': '' @ str_exc E e"

fun attempts ::
  "env \<Rightarrow> manager \<Rightarrow> path \<Rightarrow> string list \<Rightarrow> world \<Rightarrow> (string \<times> (error + string)) list" where
  \<comment> \<open>What \<open>generate\<close> returns for each node of a multi-node run, at the node's turn.\<close>
  "attempts E m output_dir [] w = []"
| "attempts E m output_dir (node_name # rest) w =
     (case generate E m node_name
             (Some (path_div (path_div output_dir node_name) ''bird.conf'')) w of
        (Inl e, w') \<Rightarrow>
          (node_name, Inl e) # attempts E m output_dir rest (print (error_line E node_name e) w')
      | (Inr config, w') \<Rightarrow> (node_name, Inr config) # attempts E m output_dir rest w')"

definition succeeded :: "(string \<times> (error + string)) list \<Rightarrow> string \<Rightarrow> string option" where
  \<comment> \<open>The rendered configuration of a node whose attempt succeeded.\<close>
  "succeeded outs n = (case map_of outs n of Some (Inr config) \<Rightarrow> Some config | _ \<Rightarrow> None)"

section \<open>Verified properties\<close>

subsection \<open>Paths\<close>

lemma walk_plain:
  "''..'' \<notin> set p \<Longrightarrow> walk w acc p = Some (acc @ p)"
  by (induction p arbitrary: acc) auto

lemma resolve_plain:
  "''..'' \<notin> set p \<Longrightarrow> resolve w p = Some p"
  by (simp add: resolve_def walk_plain)

text \<open>
  A peer name may step out of the directory of the peers: the name \<^verbatim>\<open>../nodes/edge2\<close> is
  the document of the node \<open>edge2\<close>.
\<close>

lemma peer_name_with_parent_steps:
  "peer_path ex_env ex_manager (YStr ''../nodes/edge2'')
     = [''/'', ''srv'', ''data'', ''peers'', ''..'', ''nodes'', ''edge2.yaml'']
   \<and> path_exists ex_world (peer_path ex_env ex_manager (YStr ''../nodes/edge2''))
   \<and> load_peer ex_env ex_manager ex_world (YStr ''../nodes/edge2'')
       = load_node ex_env ex_manager ex_world ''edge2''
   \<and> \<not> path_exists ex_world [''/'', ''srv'', ''nothing'', ''..'', ''data'', ''global.yaml'']"
  by code_simp

lemma walk_lookup:
  "set (dirs w') = set (dirs w) \<Longrightarrow> walk w' acc p = walk w acc p"
  by (induction p arbitrary: acc) auto

lemma fs_lookup:
  assumes "map_of (files w') = map_of (files w)" and "set (dirs w') = set (dirs w)"
  shows "resolve w' p = resolve w p" and "is_dir_at w' q = is_dir_at w q"
    and "is_file w' p = is_file w p" and "is_dir w' p = is_dir w p"
    and "path_exists w' p = path_exists w p" and "open_read w' p = open_read w p"
proof -
  have r: "resolve w' p = resolve w p"
    using assms(2) by (simp add: resolve_def walk_lookup [of w' w])
  have d: "is_dir_at w' x = is_dir_at w x" for x
    using assms(2) by (simp add: is_dir_at_def)
  show "resolve w' p = resolve w p" by (rule r)
  show "is_dir_at w' q = is_dir_at w q" by (rule d)
  show f: "is_file w' p = is_file w p"
    by (simp add: is_file_def r assms(1) split: option.split)
  show e: "is_dir w' p = is_dir w p"
    by (simp add: is_dir_def r d split: option.split)
  show "path_exists w' p = path_exists w p"
    by (simp add: path_exists_def f e)
  show "open_read w' p = open_read w p"
    by (simp add: open_read_def r d assms(1) split: option.split)
qed

lemma fs_frame:
  assumes "files w' = files w" and "dirs w' = dirs w"
  shows "resolve w' p = resolve w p" and "is_dir_at w' q = is_dir_at w q"
    and "is_file w' p = is_file w p" and "is_dir w' p = is_dir w p"
    and "path_exists w' p = path_exists w p" and "open_read w' p = open_read w p"
  using assms by (simp_all add: fs_lookup [of w' w])

lemma open_read_absent:
  "\<not> path_exists w p \<Longrightarrow> open_read w p = Inl (FileNotFoundError (show_path p))"
  by (auto simp: path_exists_def is_file_def is_dir_def open_read_def split: option.splits)

lemma open_read_dir:
  "is_dir w p \<Longrightarrow> open_read w p = Inl (IsADirectoryError (show_path p))"
  by (auto simp: is_dir_def open_read_def split: option.splits)

lemma open_read_file:
  "path_exists w p \<Longrightarrow> \<not> is_dir w p \<Longrightarrow> \<exists>body. open_read w p = Inr body"
  by (auto simp: path_exists_def is_file_def is_dir_def open_read_def split: option.splits)

lemma open_read_exists: "open_read w p = Inr body \<Longrightarrow> path_exists w p \<and> \<not> is_dir w p"
  by (auto simp: path_exists_def is_file_def is_dir_def open_read_def
           split: option.splits if_splits)

subsection \<open>Loading records\<close>

lemma load_yaml_absent:
  "\<not> path_exists w p \<Longrightarrow>
   load_yaml E w p = Inl (FileNotFoundError (''YAML file not found: '' @ show_path p))"
  by (simp add: load_yaml_def)

lemma empty_document_exists: "empty_document E w p \<Longrightarrow> path_exists w p"
  by (auto simp: empty_document_def dest: open_read_exists split: sum.splits)

lemma load_yaml_empty: "empty_document E w p \<Longrightarrow> load_yaml E w p = Inr (YDict [])"
  by (frule empty_document_exists) (auto simp: empty_document_def load_yaml_def split: sum.splits)

text \<open>
  Claim C8. Each of the three loads (global, node, peer) fails with \<open>FileNotFoundError\<close>
  when its document does not exist, and returns the empty record, without failing, when the
  document exists and is empty (the parser returns \<^verbatim>\<open>None\<close> for it). An error and a record
  are different results, so the two conditions can be told apart at every load.
\<close>

theorem load_absent_or_empty:
  "(\<not> path_exists w (global_path m) \<longrightarrow>
      (\<exists>msg. load_global_config E m w = Inl (FileNotFoundError msg)))
   \<and> (\<not> path_exists w (node_path m n) \<longrightarrow>
      (\<exists>msg. load_node E m w n = Inl (FileNotFoundError msg)))
   \<and> (\<not> path_exists w (peer_path E m p) \<longrightarrow>
      (\<exists>msg. load_peer E m w p = Inl (FileNotFoundError msg)))
   \<and> (empty_document E w' (global_path m) \<longrightarrow> load_global_config E m w' = Inr (YDict []))
   \<and> (empty_document E w' (node_path m n') \<longrightarrow> load_node E m w' n' = Inr (YDict []))
   \<and> (empty_document E w' (peer_path E m p') \<longrightarrow> load_peer E m w' p' = Inr (YDict []))"
  by (simp add: load_global_config_def load_node_def load_peer_def load_yaml_absent
        load_yaml_empty empty_document_exists)

theorem load_absent_or_empty_witness:
  "\<not> path_exists (ex_world\<lparr>files := []\<rparr>) (global_path ex_manager)
   \<and> \<not> path_exists (ex_world\<lparr>files := []\<rparr>) (node_path ex_manager ''edge1'')
   \<and> \<not> path_exists (ex_world\<lparr>files := []\<rparr>) (peer_path ex_env ex_manager (YStr ''p1''))
   \<and> (\<exists>msg. load_global_config ex_env ex_manager (ex_world\<lparr>files := []\<rparr>)
              = Inl (FileNotFoundError msg))
   \<and> (\<exists>msg. load_node ex_env ex_manager (ex_world\<lparr>files := []\<rparr>) ''edge1''
              = Inl (FileNotFoundError msg))
   \<and> (\<exists>msg. load_peer ex_env ex_manager (ex_world\<lparr>files := []\<rparr>) (YStr ''p1'')
              = Inl (FileNotFoundError msg))
   \<and> empty_document ex_env ex_blank_world (global_path ex_manager)
   \<and> empty_document ex_env ex_blank_world (node_path ex_manager ''edge1'')
   \<and> empty_document ex_env ex_blank_world (peer_path ex_env ex_manager (YStr ''p1''))
   \<and> load_global_config ex_env ex_manager ex_blank_world = Inr (YDict [])
   \<and> load_node ex_env ex_manager ex_blank_world ''edge1'' = Inr (YDict [])
   \<and> load_peer ex_env ex_manager ex_blank_world (YStr ''p1'') = Inr (YDict [])"
proof -
  let ?w = "ex_world\<lparr>files := []\<rparr>"
  have a: "\<not> path_exists ?w (global_path ex_manager)"
       "\<not> path_exists ?w (node_path ex_manager ''edge1'')"
       "\<not> path_exists ?w (peer_path ex_env ex_manager (YStr ''p1''))"
    by code_simp+
  have b: "empty_document ex_env ex_blank_world (global_path ex_manager)"
       "empty_document ex_env ex_blank_world (node_path ex_manager ''edge1'')"
       "empty_document ex_env ex_blank_world (peer_path ex_env ex_manager (YStr ''p1''))"
    by code_simp+
  show ?thesis
    using a b
      load_absent_or_empty [where w = ?w and m = ex_manager and n = "''edge1''" and E = ex_env
        and p = "YStr ''p1''" and w' = ex_blank_world and n' = "''edge1''" and p' = "YStr ''p1''"]
    by blast
qed

lemma dict_get_set:
  "dict_get (dict_set k v d) k' = (if key_norm k = key_norm k' then Some v else dict_get d k')"
  by (induction d) auto

lemma dict_get_None_iff: "dict_get d k = None \<longleftrightarrow> key_norm k \<notin> (\<lambda>(a, x). key_norm a) ` set d"
  by (induction d) (auto split: if_splits)

lemma dict_get_merge_aux:
  "distinct (map (\<lambda>(k, x). key_norm k) v) \<Longrightarrow>
   dict_get (fold (\<lambda>(k, x). dict_set k x) v b) k
     = (case dict_get v k of Some x \<Rightarrow> Some x | None \<Rightarrow> dict_get b k)"
proof (induction v arbitrary: b)
  case Nil
  then show ?case by simp
next
  case (Cons e v)
  obtain a x where e: "e = (a, x)" by (cases e)
  from Cons.prems e have d: "distinct (map (\<lambda>(k, x). key_norm k) v)"
    and n: "key_norm a \<notin> (\<lambda>(k, x). key_norm k) ` set v" by auto
  show ?case
  proof (cases "key_norm a = key_norm k")
    case True
    with n have "dict_get v k = None" by (simp add: dict_get_None_iff)
    with True show ?thesis using Cons.IH [OF d] by (simp add: e dict_get_set)
  next
    case False
    then show ?thesis using Cons.IH [OF d] by (simp add: e dict_get_set split: option.split)
  qed
qed

lemma dict_get_merge:
  "dict_keys_distinct v \<Longrightarrow>
   dict_get (dict_merge b v) k = (case dict_get v k of Some x \<Rightarrow> Some x | None \<Rightarrow> dict_get b k)"
  by (simp add: dict_merge_def dict_keys_distinct_def dict_get_merge_aux)

lemma dict_set_same: "dict_get d k = Some v \<Longrightarrow> dict_set k v d = d"
  by (induction d) (auto split: if_splits)

lemma fold_set_same:
  "\<forall>(k, x) \<in> set v. dict_get d k = Some x \<Longrightarrow> fold (\<lambda>(k, x). dict_set k x) v d = d"
  by (induction v) (auto simp: dict_set_same)

lemma dict_get_in_distinct:
  "distinct (map (\<lambda>(k, x). key_norm k) v) \<Longrightarrow> (k, x) \<in> set v \<Longrightarrow> dict_get v k = Some x"
  by (induction v) (auto simp: rev_image_eqI)

lemma dict_merge_idem:
  "dict_keys_distinct v \<Longrightarrow> dict_merge (dict_merge b v) v = dict_merge b v"
  unfolding dict_merge_def [of "dict_merge b v"]
  by (rule fold_set_same) (auto simp: dict_get_merge dict_keys_distinct_def dict_get_in_distinct)

lemma dict_merge_empty: "dict_merge b [] = b"
  by (simp add: dict_merge_def)

lemma load_yaml_fs:
  "files w' = files w \<Longrightarrow> dirs w' = dirs w \<Longrightarrow> load_yaml E w' p = load_yaml E w p"
  by (simp add: load_yaml_def fs_frame [of w' w])

lemma py_get_not_found: "py_get obj k d \<noteq> Inl (FileNotFoundError msg)"
  by (cases obj) (auto simp: py_get_def)

lemma load_yaml_not_found_iff:
  "(\<exists>msg. load_yaml E w p = Inl (FileNotFoundError msg)) \<longleftrightarrow> \<not> path_exists w p"
proof (cases "path_exists w p")
  case False
  then show ?thesis by (simp add: load_yaml_def)
next
  case True
  show ?thesis
  proof (cases "is_dir w p")
    case d: True
    then show ?thesis using True by (simp add: load_yaml_def open_read_dir)
  next
    case d: False
    with True obtain body where t: "open_read w p = Inr body"
      using open_read_file by blast
    show ?thesis
      using True d t by (cases "safe_load E body") (simp_all add: load_yaml_def)
  qed
qed

lemma pair_of_not_found: "pair_of x \<noteq> Inl (FileNotFoundError msg)"
  by (induction x rule: pair_of.induct) auto

lemma pairs_of_not_found: "pairs_of xs \<noteq> Inl (FileNotFoundError msg)"
proof (induction xs)
  case Nil
  then show ?case by simp
next
  case (Cons x xs)
  show ?case
  proof (cases "pair_of x")
    case (Inl e)
    then show ?thesis using pair_of_not_found [of x msg] by auto
  next
    case (Inr p)
    then show ?thesis using Cons by (cases "pairs_of xs") auto
  qed
qed

lemma py_update_not_found: "py_update obj v \<noteq> Inl (FileNotFoundError msg)"
proof (cases obj)
  case (YDict b)
  then show ?thesis
    using pairs_of_not_found
    by (cases v) (auto simp: py_update_def split: sum.split)
qed (simp_all add: py_update_def)

lemma resolve_peer_loaded:
  assumes l: "load_peer E m w x = Inr peer"
  shows "resolve_peer E m w nc x \<noteq> Inl (FileNotFoundError msg)"
proof (cases "py_get nc (YStr ''overrides'') (YDict [])")
  case (Inl e)
  then show ?thesis using l py_get_not_found [of nc] by (auto simp: resolve_peer_def)
next
  case a: (Inr all_overrides)
  show ?thesis
  proof (cases "py_get all_overrides x (YDict [])")
    case (Inl e)
    then show ?thesis
      using l a py_get_not_found [of all_overrides] by (auto simp: resolve_peer_def)
  next
    case b: (Inr overrides)
    show ?thesis
    proof (cases "py_update peer overrides")
      case (Inl e)
      then show ?thesis
        using l a b py_update_not_found [of peer] by (auto simp: resolve_peer_def)
    next
      case c: (Inr peer')
      show ?thesis
      proof (cases "py_get peer' (YStr ''enabled'') (YBool True)")
        case (Inl e)
        then show ?thesis
          using l a b c py_get_not_found [of peer'] by (auto simp: resolve_peer_def)
      next
        case (Inr en)
        then show ?thesis using l a b c by (simp add: resolve_peer_def)
      qed
    qed
  qed
qed

lemma resolve_peer_not_found_iff:
  "(\<exists>msg. resolve_peer E m w nc x = Inl (FileNotFoundError msg)) \<longleftrightarrow> \<not> peer_present E m w x"
proof (cases "load_peer E m w x")
  case (Inl e)
  then have "resolve_peer E m w nc x = Inl e" by (simp add: resolve_peer_def)
  then show ?thesis
    using Inl load_yaml_not_found_iff [of E w "peer_path E m x"]
    by (auto simp: load_peer_def peer_present_def)
next
  case (Inr peer)
  then show ?thesis
    using resolve_peer_loaded [OF Inr] load_yaml_not_found_iff [of E w "peer_path E m x"]
    by (auto simp: load_peer_def peer_present_def)
qed

lemma resolve_peer_fs:
  "files w' = files w \<Longrightarrow> dirs w' = dirs w \<Longrightarrow>
   resolve_peer E m w' nc x = resolve_peer E m w nc x"
  by (simp add: resolve_peer_def load_peer_def load_yaml_fs [of w' w])

lemma resolve_peers_Cons:
  "resolve_peers E m nc (x # rest) acc w =
     (case resolve_peer E m w nc x of
        Inl e \<Rightarrow> if is_not_found e then resolve_peers E m nc rest acc (print (warning E x) w)
                 else (Inl e, w)
      | Inr None \<Rightarrow> resolve_peers E m nc rest acc w
      | Inr (Some p) \<Rightarrow> resolve_peers E m nc rest (acc @ [p]) w)"
  by (simp add: is_not_found_def warning_def split: sum.split error.split option.split)

declare resolve_peers.simps(2) [simp del]

lemma is_not_found_iff: "is_not_found e \<longleftrightarrow> (\<exists>msg. e = FileNotFoundError msg)"
  by (cases e) (simp_all add: is_not_found_def)

lemma peer_fails_iff:
  "peer_fails E m w nc x \<longleftrightarrow> (\<exists>e. resolve_peer E m w nc x = Inl e \<and> \<not> is_not_found e)"
  by (simp add: peer_fails_def is_not_found_def split: sum.split error.split)

lemma resolve_peers_frame:
  "resolve_peers E m nc names acc w = (r, w') \<Longrightarrow>
   files w' = files w \<and> dirs w' = dirs w \<and> tick w' = tick w"
proof (induction names arbitrary: acc w)
  case Nil
  then show ?case by auto
next
  case (Cons x names)
  show ?case
  proof (cases "resolve_peer E m w nc x")
    case (Inl e)
    show ?thesis
    proof (cases "is_not_found e")
      case True
      then have "resolve_peers E m nc names acc (print (warning E x) w) = (r, w')"
        using Cons.prems Inl by (simp add: resolve_peers_Cons)
      from Cons.IH [OF this] show ?thesis by (simp add: print_def)
    next
      case False
      then show ?thesis using Cons.prems Inl by (simp add: resolve_peers_Cons)
    qed
  next
    case (Inr p)
    show ?thesis
    proof (cases p)
      case None
      then have "resolve_peers E m nc names acc w = (r, w')"
        using Cons.prems Inr by (simp add: resolve_peers_Cons)
      from Cons.IH [OF this] show ?thesis .
    next
      case (Some q)
      then have "resolve_peers E m nc names (acc @ [q]) w = (r, w')"
        using Cons.prems Inr by (simp add: resolve_peers_Cons)
      from Cons.IH [OF this] show ?thesis .
    qed
  qed
qed

lemma resolve_peers_not_found:
  "\<not> (\<exists>msg. fst (resolve_peers E m nc names acc w) = Inl (FileNotFoundError msg))"
proof (induction names arbitrary: acc w)
  case Nil
  then show ?case by simp
next
  case (Cons x names)
  show ?case
  proof (cases "resolve_peer E m w nc x")
    case (Inl e)
    then show ?thesis
      using Cons.IH [of acc "print (warning E x) w"]
      by (cases "is_not_found e") (auto simp: resolve_peers_Cons is_not_found_iff)
  next
    case (Inr p)
    then show ?thesis
      using Cons.IH [of acc w] Cons.IH [of "acc @ [the p]" w]
      by (cases p) (auto simp: resolve_peers_Cons)
  qed
qed

lemma resolve_peers_run:
  assumes "files w = files w0" and "dirs w = dirs w0"
    and "\<forall>x \<in> set names. \<not> peer_fails E m w0 nc x"
  shows "resolve_peers E m nc names acc w =
           (Inr (acc @ List.map_filter (contributes E m w0 nc) names),
            w\<lparr>stdout := stdout w @ map (warning E) (filter (\<lambda>x. \<not> peer_present E m w0 x) names)\<rparr>)"
  using assms
proof (induction names arbitrary: acc w)
  case Nil
  then show ?case by (simp add: map_filter_simps)
next
  case (Cons x names)
  have same: "resolve_peer E m w nc x = resolve_peer E m w0 nc x"
    using Cons.prems by (simp add: resolve_peer_fs [of w w0])
  have nf: "\<not> peer_fails E m w0 nc x" using Cons.prems by simp
  have rest: "\<forall>x \<in> set names. \<not> peer_fails E m w0 nc x" using Cons.prems by simp
  show ?case
  proof (cases "resolve_peer E m w0 nc x")
    case (Inl e)
    with nf have e: "is_not_found e" by (auto simp: peer_fails_iff)
    have np: "\<not> peer_present E m w0 x"
      using resolve_peer_not_found_iff [of E m w0 nc x] Inl e by (auto simp: is_not_found_iff)
    have c: "contributes E m w0 nc x = None" by (simp add: contributes_def Inl)
    have "resolve_peers E m nc (x # names) acc w
            = resolve_peers E m nc names acc (print (warning E x) w)"
      by (simp add: resolve_peers_Cons same Inl e)
    also have "\<dots> = (Inr (acc @ List.map_filter (contributes E m w0 nc) names),
        (print (warning E x) w)\<lparr>stdout := stdout (print (warning E x) w)
           @ map (warning E) (filter (\<lambda>x. \<not> peer_present E m w0 x) names)\<rparr>)"
      using Cons.prems rest by (intro Cons.IH) (simp_all add: print_def)
    finally show ?thesis by (simp add: np c map_filter_simps print_def)
  next
    case (Inr p)
    have pr: "peer_present E m w0 x"
      using resolve_peer_not_found_iff [of E m w0 nc x] Inr by auto
    show ?thesis
    proof (cases p)
      case None
      have c: "contributes E m w0 nc x = None" by (simp add: contributes_def Inr None)
      have "resolve_peers E m nc (x # names) acc w = resolve_peers E m nc names acc w"
        by (simp add: resolve_peers_Cons same Inr None)
      also have "\<dots> = (Inr (acc @ List.map_filter (contributes E m w0 nc) names),
          w\<lparr>stdout := stdout w @ map (warning E) (filter (\<lambda>x. \<not> peer_present E m w0 x) names)\<rparr>)"
        using Cons.prems rest by (intro Cons.IH) simp_all
      finally show ?thesis by (simp add: pr c map_filter_simps)
    next
      case (Some q)
      have c: "contributes E m w0 nc x = Some q" by (simp add: contributes_def Inr Some)
      have "resolve_peers E m nc (x # names) acc w = resolve_peers E m nc names (acc @ [q]) w"
        by (simp add: resolve_peers_Cons same Inr Some)
      also have "\<dots> = (Inr ((acc @ [q]) @ List.map_filter (contributes E m w0 nc) names),
          w\<lparr>stdout := stdout w @ map (warning E) (filter (\<lambda>x. \<not> peer_present E m w0 x) names)\<rparr>)"
        using Cons.prems rest by (intro Cons.IH) simp_all
      finally show ?thesis by (simp add: pr c map_filter_simps)
    qed
  qed
qed

lemma resolve_peers_success:
  assumes "resolve_peers E m nc names acc w = (Inr ps, w')"
  shows "\<forall>x \<in> set names. \<not> peer_fails E m w nc x"
  using assms
proof (induction names arbitrary: acc w)
  case Nil
  then show ?case by simp
next
  case (Cons x names)
  have fs: "files (print s w) = files w" "dirs (print s w) = dirs w" for s
    by (simp_all add: print_def)
  have tr: "resolve_peer E m (print s w) nc y = resolve_peer E m w nc y" for s y
    by (simp add: resolve_peer_fs [of "print s w" w] fs)
  show ?case
  proof (cases "resolve_peer E m w nc x")
    case (Inl e)
    show ?thesis
    proof (cases "is_not_found e")
      case True
      then have "resolve_peers E m nc names acc (print (warning E x) w) = (Inr ps, w')"
        using Cons.prems Inl by (simp add: resolve_peers_Cons)
      from Cons.IH [OF this] show ?thesis using True Inl by (simp add: tr peer_fails_iff)
    next
      case False
      then show ?thesis using Cons.prems Inl by (simp add: resolve_peers_Cons)
    qed
  next
    case (Inr p)
    show ?thesis
    proof (cases p)
      case None
      then have "resolve_peers E m nc names acc w = (Inr ps, w')"
        using Cons.prems Inr by (simp add: resolve_peers_Cons)
      from Cons.IH [OF this] show ?thesis using Inr by (simp add: peer_fails_iff)
    next
      case (Some q)
      then have "resolve_peers E m nc names (acc @ [q]) w = (Inr ps, w')"
        using Cons.prems Inr by (simp add: resolve_peers_Cons)
      from Cons.IH [OF this] show ?thesis using Inr by (simp add: peer_fails_iff)
    qed
  qed
qed

lemma schema_listed: "node_schema nc \<Longrightarrow> listed_peers nc = Inr (declared_peers nc)"
  by (auto simp: node_schema_def listed_peers_def declared_peers_def py_get_def
           split: yaml.splits option.splits)

lemma schema_names: "node_schema nc \<Longrightarrow> x \<in> set (declared_peers nc) \<Longrightarrow> is_str x"
  by (auto simp: node_schema_def declared_peers_def list_all_iff split: yaml.splits option.splits)

lemma is_str_hashable: "is_str x \<Longrightarrow> hashable x"
  by (cases x) (simp_all add: is_str_def)

lemma dict_get_in: "dict_get d k = Some v \<Longrightarrow> \<exists>a. (a, v) \<in> set d"
  by (induction d) (auto split: if_splits)

lemma schema_override:
  "node_schema nc \<Longrightarrow> hashable x \<Longrightarrow>
   (case py_get nc (YStr ''overrides'') (YDict []) of
      Inl e \<Rightarrow> Inl e | Inr a \<Rightarrow> py_get a x (YDict [])) = Inr (YDict (override_for nc x))"
proof -
  assume s: "node_schema nc" and h: "hashable x"
  from s obtain nd where nc: "nc = YDict nd" by (cases nc) (simp_all add: node_schema_def)
  show ?thesis
  proof (cases "dict_get nd (YStr ''overrides'')")
    case None
    then show ?thesis using nc h by (simp add: py_get_def override_for_def)
  next
    case (Some ov)
    with s nc obtain od where od: "ov = YDict od" and all: "list_all (\<lambda>(k, v). is_dict v) od"
      by (cases ov) (simp_all add: node_schema_def)
    show ?thesis
    proof (cases "dict_get od x")
      case None
      then show ?thesis using nc h Some od by (simp add: py_get_def override_for_def)
    next
      case v: (Some v)
      then obtain a where "(a, v) \<in> set od" using dict_get_in by blast
      with all have "is_dict v" by (auto simp: list_all_iff)
      then obtain vd where "v = YDict vd" by (cases v) (simp_all add: is_dict_def)
      then show ?thesis using nc h Some od v by (simp add: py_get_def override_for_def)
    qed
  qed
qed

lemma resolve_peer_schema:
  assumes "node_schema nc" and "hashable x" and "peer_record E m w x = Some b"
  shows "resolve_peer E m w nc x =
           Inr (if effective_enabled (dict_merge b (override_for nc x))
                then Some (YDict (dict_merge b (override_for nc x))) else None)"
proof -
  from assms(3) have l: "load_peer E m w x = Inr (YDict b)"
    by (auto simp: peer_record_def split: sum.splits yaml.splits)
  from schema_override [OF assms(1,2)]
  obtain a where a: "py_get nc (YStr ''overrides'') (YDict []) = Inr a"
    and o: "py_get a x (YDict []) = Inr (YDict (override_for nc x))"
    by (cases "py_get nc (YStr ''overrides'') (YDict [])") auto
  have u: "py_update (YDict b) (YDict (override_for nc x))
             = Inr (YDict (dict_merge b (override_for nc x)))"
    by (simp add: py_update_def)
  have g: "py_get (YDict (dict_merge b (override_for nc x))) (YStr ''enabled'') (YBool True)
             = Inr (case dict_get (dict_merge b (override_for nc x)) (YStr ''enabled'') of
                      None \<Rightarrow> YBool True | Some v \<Rightarrow> v)"
    by (simp add: py_get_def)
  show ?thesis
    by (simp add: resolve_peer_def l a o u g effective_enabled_def split: option.split)
qed

lemma build_context_unfold:
  "build_context E m node_name w =
     (case load_global_config E m w of
        Inl e \<Rightarrow> (Inl e, w)
      | Inr g \<Rightarrow>
     (case load_node E m w node_name of
        Inl e \<Rightarrow> (Inl e, w)
      | Inr nc \<Rightarrow>
     (case listed_peers nc of
        Inl e \<Rightarrow> (Inl e, w)
      | Inr names \<Rightarrow>
     (case resolve_peers E m nc names [] w of
        (Inl e, w') \<Rightarrow> (Inl e, w')
      | (Inr peers, w') \<Rightarrow>
          (Inr \<lparr>ctx_global = g, ctx_node = nc, ctx_peers = peers,
                generated_by = ''AEGIS Peering Manager'',
                generated_at = isoformat_now E (tick w')\<rparr>,
           w'\<lparr>tick := Suc (tick w')\<rparr>)))))"
  by (simp add: build_context_def listed_peers_def split: sum.split)

lemma py_iter_not_found: "py_iter v \<noteq> Inl (FileNotFoundError msg)"
  by (cases v) simp_all

lemma listed_peers_not_found: "listed_peers nc \<noteq> Inl (FileNotFoundError msg)"
  using py_get_not_found [of nc] py_iter_not_found
  by (auto simp: listed_peers_def split: sum.split)

lemma build_context_frame:
  assumes "build_context E m node_name w = (r, w')"
  shows "files w' = files w \<and> dirs w' = dirs w"
proof (cases "load_global_config E m w")
  case (Inl e)
  then show ?thesis using assms by (simp add: build_context_unfold)
next
  case g: (Inr g)
  show ?thesis
  proof (cases "load_node E m w node_name")
    case (Inl e)
    then show ?thesis using assms g by (simp add: build_context_unfold)
  next
    case nc: (Inr nc)
    show ?thesis
    proof (cases "listed_peers nc")
      case (Inl e)
      then show ?thesis using assms g nc by (simp add: build_context_unfold)
    next
      case names: (Inr names)
      obtain r1 w1 where rp: "resolve_peers E m nc names [] w = (r1, w1)"
        by (cases "resolve_peers E m nc names [] w")
      from resolve_peers_frame [OF rp] have f: "files w1 = files w" "dirs w1 = dirs w" by simp_all
      show ?thesis
        using assms g nc names rp f by (cases r1) (auto simp: build_context_unfold)
    qed
  qed
qed

lemma load_global_not_found_iff:
  "(\<exists>msg. load_global_config E m w = Inl (FileNotFoundError msg))
     \<longleftrightarrow> \<not> path_exists w (global_path m)"
  using load_yaml_not_found_iff [of E w "global_path m"]
  by (auto simp: load_global_config_def)

lemma load_node_not_found_iff:
  "(\<exists>msg. load_node E m w n = Inl (FileNotFoundError msg)) \<longleftrightarrow> \<not> path_exists w (node_path m n)"
  using load_yaml_not_found_iff [of E w "node_path m n"]
  by (simp add: load_node_def)

lemma build_context_not_found_iff:
  "(\<exists>msg. fst (build_context E m node_name w) = Inl (FileNotFoundError msg))
     \<longleftrightarrow> \<not> path_exists w (global_path m)
         \<or> ((\<exists>g. load_global_config E m w = Inr g) \<and> \<not> path_exists w (node_path m node_name))"
proof (cases "load_global_config E m w")
  case (Inl e)
  then show ?thesis
    using load_global_not_found_iff [of E m w] by (auto simp: build_context_unfold)
next
  case g: (Inr g)
  then have pg: "path_exists w (global_path m)"
    using load_global_not_found_iff [of E m w] by auto
  show ?thesis
  proof (cases "load_node E m w node_name")
    case (Inl e)
    then show ?thesis
      using g pg load_node_not_found_iff [of E m w node_name] by (auto simp: build_context_unfold)
  next
    case nc: (Inr nc)
    then have pn: "path_exists w (node_path m node_name)"
      using load_node_not_found_iff [of E m w node_name] by auto
    show ?thesis
    proof (cases "listed_peers nc")
      case (Inl e)
      then show ?thesis
        using g nc pg pn listed_peers_not_found [of nc] by (auto simp: build_context_unfold)
    next
      case names: (Inr names)
      obtain r1 w1 where rp: "resolve_peers E m nc names [] w = (r1, w1)"
        by (cases "resolve_peers E m nc names [] w")
      have "\<not> (\<exists>msg. r1 = Inl (FileNotFoundError msg))"
        using resolve_peers_not_found [of E m nc names "[]" w] rp by simp
      then show ?thesis
        using g nc pg pn names rp by (cases r1) (auto simp: build_context_unfold)
    qed
  qed
qed

lemma build_context_run:
  assumes "load_global_config E m w = Inr g" and "load_node E m w node_name = Inr nc"
    and "listed_peers nc = Inr names" and "\<forall>x \<in> set names. \<not> peer_fails E m w nc x"
  shows "build_context E m node_name w =
           (Inr \<lparr>ctx_global = g, ctx_node = nc,
                 ctx_peers = List.map_filter (contributes E m w nc) names,
                 generated_by = ''AEGIS Peering Manager'',
                 generated_at = isoformat_now E (tick w)\<rparr>,
            w\<lparr>stdout := stdout w @ map (warning E) (filter (\<lambda>x. \<not> peer_present E m w x) names),
              tick := Suc (tick w)\<rparr>)"
  using assms resolve_peers_run [of w w names E m nc "[]"]
  by (simp add: build_context_unfold)

lemma well_formed_loads:
  assumes "well_formed E m w n" and "path_exists w (global_path m)"
    and "path_exists w (node_path m n)"
  obtains g nc where "load_global_config E m w = Inr g" and "load_node E m w n = Inr nc"
    and "node_schema nc" and "peers_ok E m w (declared_peers nc)"
proof -
  have g: "\<exists>g. load_global_config E m w = Inr g"
    using assms(1,2) load_global_not_found_iff [of E m w]
    by (cases "load_global_config E m w") (auto simp: well_formed_def is_not_found_iff)
  have n: "\<exists>nc. load_node E m w n = Inr nc \<and> node_schema nc \<and> peers_ok E m w (declared_peers nc)"
    using assms(1,3) load_node_not_found_iff [of E m w n]
    by (cases "load_node E m w n") (auto simp: well_formed_def is_not_found_iff)
  from g n that show thesis by blast
qed

lemma contributes_schema:
  assumes "node_schema nc" and "peers_ok E m w (declared_peers nc)"
    and "x \<in> set (declared_peers nc)"
  shows "\<not> peer_fails E m w nc x"
    and "contributes E m w nc x =
           (if peer_present E m w x \<and> effective_enabled (the (resolved_peer E m w nc x))
            then Some (YDict (the (resolved_peer E m w nc x))) else None)"
proof -
  have h: "hashable x" using assms(1,3) schema_names is_str_hashable by blast
  show "\<not> peer_fails E m w nc x"
  proof (cases "peer_present E m w x")
    case True
    with assms(2,3) obtain b where "peer_record E m w x = Some b"
      by (auto simp: peers_ok_def list_all_iff)
    from resolve_peer_schema [OF assms(1) h this] show ?thesis by (simp add: peer_fails_iff)
  next
    case False
    then obtain msg where "resolve_peer E m w nc x = Inl (FileNotFoundError msg)"
      using resolve_peer_not_found_iff [of E m w nc x] by auto
    then show ?thesis by (simp add: peer_fails_iff is_not_found_iff)
  qed
  show "contributes E m w nc x =
           (if peer_present E m w x \<and> effective_enabled (the (resolved_peer E m w nc x))
            then Some (YDict (the (resolved_peer E m w nc x))) else None)"
  proof (cases "peer_present E m w x")
    case True
    with assms(2,3) obtain b where b: "peer_record E m w x = Some b"
      by (auto simp: peers_ok_def list_all_iff)
    from resolve_peer_schema [OF assms(1) h this] show ?thesis
      using True by (simp add: contributes_def resolved_peer_def b)
  next
    case False
    then obtain msg where "resolve_peer E m w nc x = Inl (FileNotFoundError msg)"
      using resolve_peer_not_found_iff [of E m w nc x] by auto
    then show ?thesis using False by (simp add: contributes_def)
  qed
qed

lemma map_filter_contributes:
  assumes "node_schema nc" and "peers_ok E m w (declared_peers nc)"
  shows "List.map_filter (contributes E m w nc) (declared_peers nc)
           = map (\<lambda>x. YDict (the (resolved_peer E m w nc x)))
               (filter (\<lambda>x. peer_present E m w x
                              \<and> effective_enabled (the (resolved_peer E m w nc x)))
                  (declared_peers nc))"
proof -
  have "List.map_filter (contributes E m w nc) xs
           = map (\<lambda>x. YDict (the (resolved_peer E m w nc x)))
               (filter (\<lambda>x. peer_present E m w x
                              \<and> effective_enabled (the (resolved_peer E m w nc x))) xs)"
    if "set xs \<subseteq> set (declared_peers nc)" for xs
    using that
  proof (induction xs)
    case Nil
    then show ?case by (simp add: map_filter_simps)
  next
    case (Cons x xs)
    then have "x \<in> set (declared_peers nc)" by simp
    from contributes_schema(2) [OF assms this] Cons show ?case
      by (simp add: map_filter_simps)
  qed
  then show ?thesis by simp
qed

lemma build_context_schema:
  assumes "load_global_config E m w = Inr g" and "load_node E m w n = Inr nc"
    and "node_schema nc" and "peers_ok E m w (declared_peers nc)"
  shows "build_context E m n w =
           (Inr \<lparr>ctx_global = g, ctx_node = nc,
                 ctx_peers = map (\<lambda>x. YDict (the (resolved_peer E m w nc x)))
                   (filter (\<lambda>x. peer_present E m w x
                                  \<and> effective_enabled (the (resolved_peer E m w nc x)))
                      (declared_peers nc)),
                 generated_by = ''AEGIS Peering Manager'',
                 generated_at = isoformat_now E (tick w)\<rparr>,
            w\<lparr>stdout := stdout w
                  @ map (warning E) (filter (\<lambda>x. \<not> peer_present E m w x) (declared_peers nc)),
              tick := Suc (tick w)\<rparr>)"
proof -
  have nf: "\<forall>x \<in> set (declared_peers nc). \<not> peer_fails E m w nc x"
    using contributes_schema(1) [OF assms(3,4)] by blast
  show ?thesis
    using build_context_run [OF assms(1,2) schema_listed [OF assms(3)] nf]
    by (simp add: map_filter_contributes [OF assms(3,4)])
qed

subsection \<open>Missing records\<close>

text \<open>
  Claim C2. For every input, \<open>build_context\<close> raises \<open>FileNotFoundError\<close> exactly when the
  global document is absent, or the global record loads and the document of the node is
  absent; the absence of a peer document never makes it raise. On well-formed documents
  (each of the two is absent or loads, the node follows the schema, and the peer documents
  that exist are mappings) that is: exactly when the global or the node document is absent.
  When both exist the two records load and the call returns the context made of them:
  its peers are the resolved records of the peers of the loaded node record that have a
  document and are enabled, so a peer without a document is left out, and the output is
  extended by one warning naming each peer of the node's list that has no document, in
  the order of the list.
\<close>

theorem build_context_not_found:
  "((\<exists>msg. fst (build_context E m n w) = Inl (FileNotFoundError msg)) \<longleftrightarrow>
       \<not> path_exists w (global_path m)
       \<or> ((\<exists>g. load_global_config E m w = Inr g) \<and> \<not> path_exists w (node_path m n)))
   \<and> (well_formed E m w n \<longrightarrow>
        ((\<exists>msg. fst (build_context E m n w) = Inl (FileNotFoundError msg)) \<longleftrightarrow>
           \<not> path_exists w (global_path m) \<or> \<not> path_exists w (node_path m n)))
   \<and> (well_formed E m w n \<and> path_exists w (global_path m) \<and> path_exists w (node_path m n) \<longrightarrow>
        (\<exists>g nc. load_global_config E m w = Inr g \<and> load_node E m w n = Inr nc
           \<and> build_context E m n w =
               (Inr \<lparr>ctx_global = g, ctx_node = nc,
                     ctx_peers =
                       map (\<lambda>x. YDict (the (resolved_peer E m w nc x)))
                         (filter (\<lambda>x. effective_enabled (the (resolved_peer E m w nc x)))
                            (filter (peer_present E m w) (declared_peers nc))),
                     generated_by = ''AEGIS Peering Manager'',
                     generated_at = isoformat_now E (tick w)\<rparr>,
                w\<lparr>stdout := stdout w
                      @ map (warning E)
                          (filter (\<lambda>x. \<not> peer_present E m w x) (declared_peers nc)),
                  tick := Suc (tick w)\<rparr>)))"
proof (intro conjI impI)
  show "(\<exists>msg. fst (build_context E m n w) = Inl (FileNotFoundError msg)) \<longleftrightarrow>
       \<not> path_exists w (global_path m)
       \<or> ((\<exists>g. load_global_config E m w = Inr g) \<and> \<not> path_exists w (node_path m n))"
    by (rule build_context_not_found_iff)
next
  assume wf: "well_formed E m w n"
  have "path_exists w (global_path m) \<Longrightarrow> \<exists>g. load_global_config E m w = Inr g"
    using wf load_global_not_found_iff [of E m w]
    by (cases "load_global_config E m w") (auto simp: well_formed_def is_not_found_iff)
  then show "(\<exists>msg. fst (build_context E m n w) = Inl (FileNotFoundError msg)) \<longleftrightarrow>
           \<not> path_exists w (global_path m) \<or> \<not> path_exists w (node_path m n)"
    using build_context_not_found_iff [of E m n w] by blast
next
  assume "well_formed E m w n \<and> path_exists w (global_path m) \<and> path_exists w (node_path m n)"
  then obtain g nc where l: "load_global_config E m w = Inr g" "load_node E m w n = Inr nc"
    "node_schema nc" "peers_ok E m w (declared_peers nc)"
    using well_formed_loads [of E m w n] by blast
  have "build_context E m n w =
               (Inr \<lparr>ctx_global = g, ctx_node = nc,
                     ctx_peers =
                       map (\<lambda>x. YDict (the (resolved_peer E m w nc x)))
                         (filter (\<lambda>x. effective_enabled (the (resolved_peer E m w nc x)))
                            (filter (peer_present E m w) (declared_peers nc))),
                     generated_by = ''AEGIS Peering Manager'',
                     generated_at = isoformat_now E (tick w)\<rparr>,
                w\<lparr>stdout := stdout w
                      @ map (warning E)
                          (filter (\<lambda>x. \<not> peer_present E m w x) (declared_peers nc)),
                  tick := Suc (tick w)\<rparr>)"
    by (simp add: build_context_schema [OF l] conj_commute)
  with l(1,2) show "\<exists>g nc. load_global_config E m w = Inr g \<and> load_node E m w n = Inr nc
           \<and> build_context E m n w =
               (Inr \<lparr>ctx_global = g, ctx_node = nc,
                     ctx_peers =
                       map (\<lambda>x. YDict (the (resolved_peer E m w nc x)))
                         (filter (\<lambda>x. effective_enabled (the (resolved_peer E m w nc x)))
                            (filter (peer_present E m w) (declared_peers nc))),
                     generated_by = ''AEGIS Peering Manager'',
                     generated_at = isoformat_now E (tick w)\<rparr>,
                w\<lparr>stdout := stdout w
                      @ map (warning E)
                          (filter (\<lambda>x. \<not> peer_present E m w x) (declared_peers nc)),
                  tick := Suc (tick w)\<rparr>)"
    by blast
qed

theorem build_context_not_found_witness:
  "well_formed ex_env ex_manager ex_world ''edge2''
   \<and> path_exists ex_world (global_path ex_manager)
   \<and> path_exists ex_world (node_path ex_manager ''edge2'')
   \<and> load_node ex_env ex_manager ex_world ''edge2''
        = Inr (YDict [(YStr ''peers'', YList [YStr ''ghost'', YStr ''p1''])])
   \<and> \<not> path_exists ex_world (peer_path ex_env ex_manager (YStr ''ghost''))
   \<and> build_context ex_env ex_manager ''edge2'' ex_world =
       (Inr \<lparr>ctx_global = YDict [(YStr ''asn'', YInt 65000)],
             ctx_node = YDict [(YStr ''peers'', YList [YStr ''ghost'', YStr ''p1''])],
             ctx_peers = [YDict [(YStr ''address'', YStr ''10.0.0.1''),
                                 (YStr ''enabled'', YBool True)]],
             generated_by = ''AEGIS Peering Manager'',
             generated_at = ''2024-01-01T00:00:00+00:00''\<rparr>,
        ex_world\<lparr>stdout := [''Warning: Peer configuration not found: ghost''],
                 tick := 1\<rparr>)
   \<and> well_formed ex_env ex_manager ex_world ''nowhere''
   \<and> \<not> path_exists ex_world (node_path ex_manager ''nowhere'')
   \<and> (\<exists>msg. fst (build_context ex_env ex_manager ''nowhere'' ex_world)
                = Inl (FileNotFoundError msg))"
proof -
  let ?nc = "YDict [(YStr ''peers'', YList [YStr ''ghost'', YStr ''p1''])]"
  have a: "well_formed ex_env ex_manager ex_world ''edge2''"
    "path_exists ex_world (global_path ex_manager)"
    "path_exists ex_world (node_path ex_manager ''edge2'')"
    "\<not> path_exists ex_world (peer_path ex_env ex_manager (YStr ''ghost''))"
    "well_formed ex_env ex_manager ex_world ''nowhere''"
    "\<not> path_exists ex_world (node_path ex_manager ''nowhere'')"
    by code_simp+
  have l: "load_global_config ex_env ex_manager ex_world = Inr (YDict [(YStr ''asn'', YInt 65000)])"
    "load_node ex_env ex_manager ex_world ''edge2'' = Inr ?nc"
    by code_simp+
  have v: "map (\<lambda>x. YDict (the (resolved_peer ex_env ex_manager ex_world ?nc x)))
             (filter (\<lambda>x. effective_enabled (the (resolved_peer ex_env ex_manager ex_world ?nc x)))
                (filter (peer_present ex_env ex_manager ex_world) (declared_peers ?nc)))
           = [YDict [(YStr ''address'', YStr ''10.0.0.1''), (YStr ''enabled'', YBool True)]]"
    "map (warning ex_env)
       (filter (\<lambda>x. \<not> peer_present ex_env ex_manager ex_world x) (declared_peers ?nc))
     = [''Warning: Peer configuration not found: ghost'']"
    "stdout ex_world = []" "tick ex_world = 0"
    by code_simp+
  have t: "isoformat_now ex_env 0 = ''2024-01-01T00:00:00+00:00''"
    by (simp add: ex_env_def)
  from a build_context_not_found [of ex_env ex_manager "''edge2''" ex_world]
  obtain g nc where
    b: "load_global_config ex_env ex_manager ex_world = Inr g"
       "load_node ex_env ex_manager ex_world ''edge2'' = Inr nc"
       "build_context ex_env ex_manager ''edge2'' ex_world =
               (Inr \<lparr>ctx_global = g, ctx_node = nc,
                     ctx_peers =
                       map (\<lambda>x. YDict (the (resolved_peer ex_env ex_manager ex_world nc x)))
                         (filter (\<lambda>x. effective_enabled
                                         (the (resolved_peer ex_env ex_manager ex_world nc x)))
                            (filter (peer_present ex_env ex_manager ex_world)
                               (declared_peers nc))),
                     generated_by = ''AEGIS Peering Manager'',
                     generated_at = isoformat_now ex_env (tick ex_world)\<rparr>,
                ex_world\<lparr>stdout := stdout ex_world
                      @ map (warning ex_env)
                          (filter (\<lambda>x. \<not> peer_present ex_env ex_manager ex_world x)
                             (declared_peers nc)),
                  tick := Suc (tick ex_world)\<rparr>)"
    by blast
  from b(1,2) l have e: "g = YDict [(YStr ''asn'', YInt 65000)]" "nc = ?nc"
    by simp_all
  have c: "build_context ex_env ex_manager ''edge2'' ex_world =
       (Inr \<lparr>ctx_global = YDict [(YStr ''asn'', YInt 65000)],
             ctx_node = YDict [(YStr ''peers'', YList [YStr ''ghost'', YStr ''p1''])],
             ctx_peers = [YDict [(YStr ''address'', YStr ''10.0.0.1''),
                                 (YStr ''enabled'', YBool True)]],
             generated_by = ''AEGIS Peering Manager'',
             generated_at = ''2024-01-01T00:00:00+00:00''\<rparr>,
        ex_world\<lparr>stdout := [''Warning: Peer configuration not found: ghost''],
                 tick := 1\<rparr>)"
    unfolding b(3) e v t by simp
  have d: "\<exists>msg. fst (build_context ex_env ex_manager ''nowhere'' ex_world)
                = Inl (FileNotFoundError msg)"
    using a build_context_not_found [of ex_env ex_manager "''nowhere''" ex_world] by blast
  show ?thesis
    using a l(2) c d by simp
qed

lemma load_yaml_lookup:
  "map_of (files w2) = map_of (files w) \<Longrightarrow> set (dirs w2) = set (dirs w) \<Longrightarrow>
   load_yaml E w2 p = load_yaml E w p"
  by (simp add: load_yaml_def fs_lookup [of w2 w])

lemma peer_record_present: "peer_record E m w x = Some b \<Longrightarrow> peer_present E m w x"
proof -
  assume "peer_record E m w x = Some b"
  then have "load_peer E m w x = Inr (YDict b)"
    by (auto simp: peer_record_def split: sum.splits yaml.splits)
  then show ?thesis
    using load_yaml_not_found_iff [of E w "peer_path E m x"]
    by (auto simp: load_peer_def peer_present_def)
qed

lemma resolved_sequence_eq:
  assumes "peers_ok E m w names"
  shows "map (\<lambda>x. YDict (the (resolved_peer E m w nc x)))
           (filter (\<lambda>x. peer_present E m w x \<and> effective_enabled (the (resolved_peer E m w nc x)))
              names)
         = resolved_sequence (peer_record E m w) (override_for nc) names"
  using assms
proof (induction names)
  case Nil
  then show ?case by (simp add: resolved_sequence_def)
next
  case (Cons x names)
  then have ok: "peer_present E m w x \<longrightarrow> peer_record E m w x \<noteq> None"
    and rest: "peers_ok E m w names" by (simp_all add: peers_ok_def)
  have pr: "peer_present E m w x \<longleftrightarrow> peer_record E m w x \<noteq> None"
    using ok peer_record_present [of E m w x] by auto
  from Cons.IH [OF rest] show ?case
    by (auto simp: resolved_sequence_def pr resolved_peer_def)
qed

subsection \<open>The resolved peer sequence\<close>

text \<open>
  Claim C3. On well-formed documents that exist, the two records load and the peer
  sequence of the context that \<open>build_context\<close> returns is the peer list \<open>P\<close> of the loaded
  node record, in the order of \<open>P\<close>, restricted to the names whose record exists and whose
  resolved \<open>enabled\<close> is true, each name replaced by its record with the override of the
  loaded node record merged over it. The sequence is a function of what a lookup in the
  peer files and in the override map returns: two worlds with the same files in another
  directory order give the same records, and two override maps with the same entries in
  another order give the same overrides.
\<close>

theorem resolved_sequence_order:
  "(well_formed E m w n \<and> path_exists w (global_path m) \<and> path_exists w (node_path m n) \<longrightarrow>
      (\<exists>g nc. load_global_config E m w = Inr g \<and> load_node E m w n = Inr nc
         \<and> build_context E m n w =
             (Inr \<lparr>ctx_global = g, ctx_node = nc,
                   ctx_peers =
                     resolved_sequence (peer_record E m w) (override_for nc) (declared_peers nc),
                   generated_by = ''AEGIS Peering Manager'',
                   generated_at = isoformat_now E (tick w)\<rparr>,
              w\<lparr>stdout := stdout w
                    @ map (warning E)
                        (filter (\<lambda>x. \<not> peer_present E m w x) (declared_peers nc)),
                tick := Suc (tick w)\<rparr>)))
   \<and> (map_of (files w2) = map_of (files w) \<and> set (dirs w2) = set (dirs w) \<longrightarrow>
        peer_record E m w2 = peer_record E m w)
   \<and> (dict_get nd2 (YStr ''overrides'') = Some (YDict od2)
        \<and> dict_get nd (YStr ''overrides'') = Some (YDict od)
        \<and> (\<forall>k. dict_get od2 k = dict_get od k) \<longrightarrow>
        override_for (YDict nd2) = override_for (YDict nd))"
proof (intro conjI impI)
  assume "well_formed E m w n \<and> path_exists w (global_path m) \<and> path_exists w (node_path m n)"
  then obtain g nc where l: "load_global_config E m w = Inr g" "load_node E m w n = Inr nc"
    "node_schema nc" "peers_ok E m w (declared_peers nc)"
    using well_formed_loads [of E m w n] by blast
  have "build_context E m n w =
             (Inr \<lparr>ctx_global = g, ctx_node = nc,
                   ctx_peers =
                     resolved_sequence (peer_record E m w) (override_for nc) (declared_peers nc),
                   generated_by = ''AEGIS Peering Manager'',
                   generated_at = isoformat_now E (tick w)\<rparr>,
              w\<lparr>stdout := stdout w
                    @ map (warning E)
                        (filter (\<lambda>x. \<not> peer_present E m w x) (declared_peers nc)),
                tick := Suc (tick w)\<rparr>)"
    by (simp add: build_context_schema [OF l] resolved_sequence_eq [OF l(4)])
  with l(1,2) show "\<exists>g nc. load_global_config E m w = Inr g \<and> load_node E m w n = Inr nc
         \<and> build_context E m n w =
             (Inr \<lparr>ctx_global = g, ctx_node = nc,
                   ctx_peers =
                     resolved_sequence (peer_record E m w) (override_for nc) (declared_peers nc),
                   generated_by = ''AEGIS Peering Manager'',
                   generated_at = isoformat_now E (tick w)\<rparr>,
              w\<lparr>stdout := stdout w
                    @ map (warning E)
                        (filter (\<lambda>x. \<not> peer_present E m w x) (declared_peers nc)),
                tick := Suc (tick w)\<rparr>)"
    by blast
next
  assume "map_of (files w2) = map_of (files w) \<and> set (dirs w2) = set (dirs w)"
  then show "peer_record E m w2 = peer_record E m w"
    by (auto simp: peer_record_def load_peer_def load_yaml_lookup [of w2 w] fun_eq_iff)
next
  assume "dict_get nd2 (YStr ''overrides'') = Some (YDict od2)
        \<and> dict_get nd (YStr ''overrides'') = Some (YDict od)
        \<and> (\<forall>k. dict_get od2 k = dict_get od k)"
  then show "override_for (YDict nd2) = override_for (YDict nd)"
    by (simp add: override_for_def fun_eq_iff)
qed

theorem resolved_sequence_order_witness:
  "well_formed ex_env ex_manager ex_world ''edge1''
   \<and> path_exists ex_world (global_path ex_manager)
   \<and> path_exists ex_world (node_path ex_manager ''edge1'')
   \<and> load_node ex_env ex_manager ex_world ''edge1''
        = Inr (YDict [(YStr ''peers'', YList [YStr ''p1'', YStr ''p2'']),
                      (YStr ''overrides'',
                         YDict [(YStr ''p2'', YDict [(YStr ''enabled'', YBool False)])])])
   \<and> build_context ex_env ex_manager ''edge1'' ex_world =
       (Inr \<lparr>ctx_global = YDict [(YStr ''asn'', YInt 65000)],
             ctx_node =
               YDict [(YStr ''peers'', YList [YStr ''p1'', YStr ''p2'']),
                      (YStr ''overrides'',
                         YDict [(YStr ''p2'', YDict [(YStr ''enabled'', YBool False)])])],
             ctx_peers = [YDict [(YStr ''address'', YStr ''10.0.0.1''),
                                 (YStr ''enabled'', YBool True)]],
             generated_by = ''AEGIS Peering Manager'',
             generated_at = ''2024-01-01T00:00:00+00:00''\<rparr>,
        ex_world\<lparr>stdout := [], tick := 1\<rparr>)
   \<and> map_of (files ex_world_reordered) = map_of (files ex_world)
   \<and> set (dirs ex_world_reordered) = set (dirs ex_world)
   \<and> peer_record ex_env ex_manager ex_world_reordered = peer_record ex_env ex_manager ex_world
   \<and> override_for
        (YDict [(YStr ''overrides'',
                 YDict [(YStr ''p2'', YDict [(YStr ''enabled'', YBool False)]),
                        (YStr ''p1'', YDict [])])])
      = override_for
        (YDict [(YStr ''overrides'',
                 YDict [(YStr ''p1'', YDict []),
                        (YStr ''p2'', YDict [(YStr ''enabled'', YBool False)])])])"
proof -
  let ?nc = "YDict [(YStr ''peers'', YList [YStr ''p1'', YStr ''p2'']),
                    (YStr ''overrides'',
                       YDict [(YStr ''p2'', YDict [(YStr ''enabled'', YBool False)])])]"
  have a: "well_formed ex_env ex_manager ex_world ''edge1''"
    "path_exists ex_world (global_path ex_manager)"
    "path_exists ex_world (node_path ex_manager ''edge1'')"
    by code_simp+
  have l: "load_global_config ex_env ex_manager ex_world = Inr (YDict [(YStr ''asn'', YInt 65000)])"
    "load_node ex_env ex_manager ex_world ''edge1'' = Inr ?nc"
    by code_simp+
  have v: "resolved_sequence (peer_record ex_env ex_manager ex_world) (override_for ?nc)
             (declared_peers ?nc)
           = [YDict [(YStr ''address'', YStr ''10.0.0.1''), (YStr ''enabled'', YBool True)]]"
    "map (warning ex_env)
       (filter (\<lambda>x. \<not> peer_present ex_env ex_manager ex_world x) (declared_peers ?nc)) = []"
    "stdout ex_world = []" "tick ex_world = 0"
    by code_simp+
  have t: "isoformat_now ex_env 0 = ''2024-01-01T00:00:00+00:00''"
    by (simp add: ex_env_def)
  have d: "distinct (map fst (files ex_world))" by code_simp
  have b: "map_of (files ex_world_reordered) = map_of (files ex_world)"
    using d map_of_inject_set [of "rev (files ex_world)" "files ex_world"]
    by (simp add: ex_world_reordered_def rev_map [symmetric])
  have c: "set (dirs ex_world_reordered) = set (dirs ex_world)"
    by (simp add: ex_world_reordered_def)
  have e: "\<forall>k. dict_get [(YStr ''p2'', YDict [(YStr ''enabled'', YBool False)]),
                         (YStr ''p1'', YDict [])] k
             = dict_get [(YStr ''p1'', YDict []),
                         (YStr ''p2'', YDict [(YStr ''enabled'', YBool False)])] k"
  proof
    fix k
    show "dict_get [(YStr ''p2'', YDict [(YStr ''enabled'', YBool False)]),
                    (YStr ''p1'', YDict [])] k
             = dict_get [(YStr ''p1'', YDict []),
                         (YStr ''p2'', YDict [(YStr ''enabled'', YBool False)])] k"
      by (cases "key_norm k = YStr ''p1''"; cases "key_norm k = YStr ''p2''"; simp)
  qed
  note th = resolved_sequence_order [of ex_env ex_manager ex_world "''edge1''" ex_world_reordered
        "[(YStr ''overrides'',
                 YDict [(YStr ''p2'', YDict [(YStr ''enabled'', YBool False)]),
                        (YStr ''p1'', YDict [])])]"
        "[(YStr ''p2'', YDict [(YStr ''enabled'', YBool False)]), (YStr ''p1'', YDict [])]"
        "[(YStr ''overrides'',
                 YDict [(YStr ''p1'', YDict []),
                        (YStr ''p2'', YDict [(YStr ''enabled'', YBool False)])])]"
        "[(YStr ''p1'', YDict []), (YStr ''p2'', YDict [(YStr ''enabled'', YBool False)])]"]
  from a th obtain g nc where
    f: "load_global_config ex_env ex_manager ex_world = Inr g"
       "load_node ex_env ex_manager ex_world ''edge1'' = Inr nc"
       "build_context ex_env ex_manager ''edge1'' ex_world =
             (Inr \<lparr>ctx_global = g, ctx_node = nc,
                   ctx_peers =
                     resolved_sequence (peer_record ex_env ex_manager ex_world) (override_for nc)
                       (declared_peers nc),
                   generated_by = ''AEGIS Peering Manager'',
                   generated_at = isoformat_now ex_env (tick ex_world)\<rparr>,
              ex_world\<lparr>stdout := stdout ex_world
                    @ map (warning ex_env)
                        (filter (\<lambda>x. \<not> peer_present ex_env ex_manager ex_world x)
                           (declared_peers nc)),
                tick := Suc (tick ex_world)\<rparr>)"
    by blast
  from f(1,2) l have g: "g = YDict [(YStr ''asn'', YInt 65000)]" "nc = ?nc"
    by simp_all
  have h: "build_context ex_env ex_manager ''edge1'' ex_world =
       (Inr \<lparr>ctx_global = YDict [(YStr ''asn'', YInt 65000)],
             ctx_node = ?nc,
             ctx_peers = [YDict [(YStr ''address'', YStr ''10.0.0.1''),
                                 (YStr ''enabled'', YBool True)]],
             generated_by = ''AEGIS Peering Manager'',
             generated_at = ''2024-01-01T00:00:00+00:00''\<rparr>,
        ex_world\<lparr>stdout := [], tick := 1\<rparr>)"
    unfolding f(3) g v t by simp
  have i: "peer_record ex_env ex_manager ex_world_reordered
             = peer_record ex_env ex_manager ex_world"
    using th b c by blast
  have j: "override_for
        (YDict [(YStr ''overrides'',
                 YDict [(YStr ''p2'', YDict [(YStr ''enabled'', YBool False)]),
                        (YStr ''p1'', YDict [])])])
      = override_for
        (YDict [(YStr ''overrides'',
                 YDict [(YStr ''p1'', YDict []),
                        (YStr ''p2'', YDict [(YStr ''enabled'', YBool False)])])])"
    using th e by simp
  show ?thesis
    using a l(2) h b c i j by simp
qed

subsection \<open>Applying an override\<close>

lemma dict_set_keys: "\<exists>new. map fst (dict_set k x d) = map fst d @ new"
  by (induction d) auto

lemma dict_merge_keys: "\<exists>new. map fst (dict_merge b v) = map fst b @ new"
  unfolding dict_merge_def
proof (induction v arbitrary: b)
  case Nil
  then show ?case by simp
next
  case (Cons e v)
  obtain k x where e: "e = (k, x)" by (cases e)
  obtain n1 where n1: "map fst (dict_set k x b) = map fst b @ n1"
    using dict_set_keys by blast
  obtain n2 where "map fst (fold (\<lambda>(k, x). dict_set k x) v (dict_set k x b))
                     = map fst (dict_set k x b) @ n2"
    using Cons [of "dict_set k x b"] by blast
  then show ?case by (simp add: e n1)
qed

text \<open>
  Claim C4. The resolved peer is the record of the peer with the fields of the override
  stored over it: a key of the override has the override's value, every other key has the
  value of the record, and the keys of the record keep their places. Merging the same
  override a second time changes nothing, the empty override gives back the record, and a
  peer resolved again after a resolution (of any node) gives the same result.
\<close>

theorem override_merge:
  "(dict_keys_distinct v \<longrightarrow>
      (\<forall>k. dict_get (dict_merge b v) k
            = (case dict_get v k of Some x \<Rightarrow> Some x | None \<Rightarrow> dict_get b k))
      \<and> dict_merge (dict_merge b v) v = dict_merge b v)
   \<and> (\<exists>new. map fst (dict_merge b v) = map fst b @ new)
   \<and> dict_merge b [] = b
   \<and> (node_schema nc \<and> hashable x \<and> peer_record E m w x = Some b \<longrightarrow>
        resolve_peer E m w nc x =
          Inr (if effective_enabled (dict_merge b (override_for nc x))
               then Some (YDict (dict_merge b (override_for nc x))) else None))
   \<and> (build_context E m n w = (r, w') \<longrightarrow>
        resolve_peer E m w' nc x = resolve_peer E m w nc x)"
proof (intro conjI impI allI)
  fix k
  assume "dict_keys_distinct v"
  then show "dict_get (dict_merge b v) k
            = (case dict_get v k of Some x \<Rightarrow> Some x | None \<Rightarrow> dict_get b k)"
    by (rule dict_get_merge)
next
  assume "dict_keys_distinct v"
  then show "dict_merge (dict_merge b v) v = dict_merge b v" by (rule dict_merge_idem)
next
  show "\<exists>new. map fst (dict_merge b v) = map fst b @ new" by (rule dict_merge_keys)
next
  show "dict_merge b [] = b" by (rule dict_merge_empty)
next
  assume "node_schema nc \<and> hashable x \<and> peer_record E m w x = Some b"
  then show "resolve_peer E m w nc x =
          Inr (if effective_enabled (dict_merge b (override_for nc x))
               then Some (YDict (dict_merge b (override_for nc x))) else None)"
    using resolve_peer_schema [of nc x E m w b] by blast
next
  assume "build_context E m n w = (r, w')"
  from build_context_frame [OF this] show "resolve_peer E m w' nc x = resolve_peer E m w nc x"
    by (simp add: resolve_peer_fs [of w' w])
qed

theorem override_merge_witness:
  "dict_keys_distinct [(YStr ''enabled'', YBool False)]
   \<and> (\<forall>k. dict_get (dict_merge ex_peer2 [(YStr ''enabled'', YBool False)]) k
           = (case dict_get [(YStr ''enabled'', YBool False)] k of
                Some x \<Rightarrow> Some x | None \<Rightarrow> dict_get ex_peer2 k))
   \<and> dict_merge (dict_merge ex_peer2 [(YStr ''enabled'', YBool False)])
        [(YStr ''enabled'', YBool False)]
      = dict_merge ex_peer2 [(YStr ''enabled'', YBool False)]
   \<and> node_schema ex_edge1 \<and> hashable (YStr ''p2'')
   \<and> peer_record ex_env ex_manager ex_world (YStr ''p2'') = Some ex_peer2
   \<and> resolve_peer ex_env ex_manager ex_world ex_edge1 (YStr ''p2'') =
        Inr (if effective_enabled (dict_merge ex_peer2 (override_for ex_edge1 (YStr ''p2'')))
             then Some (YDict (dict_merge ex_peer2 (override_for ex_edge1 (YStr ''p2''))))
             else None)
   \<and> resolve_peer ex_env ex_manager
        (snd (build_context ex_env ex_manager ''edge1'' ex_world)) ex_edge1 (YStr ''p2'')
      = resolve_peer ex_env ex_manager ex_world ex_edge1 (YStr ''p2'')"
proof -
  have a: "dict_keys_distinct [(YStr ''enabled'', YBool False)]"
    "node_schema ex_edge1" "hashable (YStr ''p2'')"
    "peer_record ex_env ex_manager ex_world (YStr ''p2'') = Some ex_peer2"
    by code_simp+
  have b: "build_context ex_env ex_manager ''edge1'' ex_world
             = (fst (build_context ex_env ex_manager ''edge1'' ex_world),
                snd (build_context ex_env ex_manager ''edge1'' ex_world))"
    by simp
  show ?thesis
    using a b
      override_merge [of "[(YStr ''enabled'', YBool False)]" ex_peer2 ex_edge1 "YStr ''p2''"
        ex_env ex_manager ex_world "''edge1''"
        "fst (build_context ex_env ex_manager ''edge1'' ex_world)"
        "snd (build_context ex_env ex_manager ''edge1'' ex_world)"]
    by blast
qed

subsection \<open>Disabled peers\<close>

lemma effective_enabled_merge:
  "dict_keys_distinct v \<Longrightarrow> effective_enabled (dict_merge b v) = truthy (enabled_value b v)"
  by (simp add: effective_enabled_def enabled_value_def dict_get_merge split: option.split)

lemma contributes_enabled:
  assumes "node_schema nc" and "hashable x" and "peer_record E m w x = Some b"
    and "dict_keys_distinct (override_for nc x)"
  shows "contributes E m w nc x =
           (if truthy (enabled_value b (override_for nc x))
            then Some (YDict (dict_merge b (override_for nc x))) else None)"
  using resolve_peer_schema [OF assms(1,2,3)] effective_enabled_merge [OF assms(4), of b]
  by (simp add: contributes_def)

lemma enabled_peers_eq:
  assumes "list_all (\<lambda>x. dict_keys_distinct (ov x)) P"
  shows "enabled_peers base ov P = resolved_sequence base ov P"
proof -
  have "effective_enabled (dict_merge (the (base x)) (ov x))
          = truthy (case dict_get (ov x) (YStr ''enabled'') of
                      Some e \<Rightarrow> e
                    | None \<Rightarrow> (case dict_get (the (base x)) (YStr ''enabled'') of
                                 Some e \<Rightarrow> e | None \<Rightarrow> YBool True))"
    if "x \<in> set P" for x
    using that assms effective_enabled_merge [of "ov x" "the (base x)"]
    by (simp add: list_all_iff enabled_value_def)
  then have "filter (\<lambda>x. base x \<noteq> None \<and> effective_enabled (dict_merge (the (base x)) (ov x))) P
     = filter (\<lambda>x. base x \<noteq> None
                      \<and> truthy (case dict_get (ov x) (YStr ''enabled'') of
                                  Some e \<Rightarrow> e
                                | None \<Rightarrow> (case dict_get (the (base x)) (YStr ''enabled'') of
                                             Some e \<Rightarrow> e | None \<Rightarrow> YBool True))) P"
    by (intro filter_cong) auto
  then show ?thesis
    by (simp add: enabled_peers_def resolved_sequence_def)
qed

text \<open>
  Claim C5. On well-formed documents that exist, the two records load and the peers of the
  context that \<open>build_context\<close> returns are exactly what the peers of the loaded node
  record's list contribute, in the order of the list; with the keys of each override
  distinct, as in every dict, that is: a peer of the list appears, as its resolved record,
  if and only if its record exists and its effective \<open>enabled\<close> value (the override's, else
  the record's, else true) is true (in Python's sense, which for a boolean is the boolean).
  For each peer whose record exists: it contributes its resolved record if that value is
  true and nothing otherwise, so a peer resolving to \<open>enabled: false\<close> is left out whatever
  its other fields are, an override with \<open>enabled: true\<close> brings a disabled peer back, and
  a peer with no \<open>enabled\<close> field in either place is included.
\<close>

theorem enabled_filter:
  "(well_formed E m w n \<and> path_exists w (global_path m) \<and> path_exists w (node_path m n) \<longrightarrow>
      (\<exists>g nd. load_global_config E m w = Inr g \<and> load_node E m w n = Inr nd
         \<and> build_context E m n w =
             (Inr \<lparr>ctx_global = g, ctx_node = nd,
                   ctx_peers = List.map_filter (contributes E m w nd) (declared_peers nd),
                   generated_by = ''AEGIS Peering Manager'',
                   generated_at = isoformat_now E (tick w)\<rparr>,
              w\<lparr>stdout := stdout w
                    @ map (warning E)
                        (filter (\<lambda>x. \<not> peer_present E m w x) (declared_peers nd)),
                tick := Suc (tick w)\<rparr>)
         \<and> (list_all (\<lambda>x. dict_keys_distinct (override_for nd x)) (declared_peers nd) \<longrightarrow>
              List.map_filter (contributes E m w nd) (declared_peers nd)
                = enabled_peers (peer_record E m w) (override_for nd) (declared_peers nd))))
   \<and> (node_schema nc \<and> hashable x \<and> peer_record E m w x = Some b
        \<and> dict_keys_distinct (override_for nc x) \<longrightarrow>
        contributes E m w nc x =
          (if truthy (enabled_value b (override_for nc x))
           then Some (YDict (dict_merge b (override_for nc x))) else None)
        \<and> (enabled_value b (override_for nc x) = YBool False \<longrightarrow>
             contributes E m w nc x = None)
        \<and> (dict_get (override_for nc x) (YStr ''enabled'') = Some (YBool True) \<longrightarrow>
             contributes E m w nc x = Some (YDict (dict_merge b (override_for nc x))))
        \<and> (dict_get (override_for nc x) (YStr ''enabled'') = None
             \<and> dict_get b (YStr ''enabled'') = None \<longrightarrow>
             contributes E m w nc x = Some (YDict (dict_merge b (override_for nc x)))))"
proof (intro conjI impI)
  assume "well_formed E m w n \<and> path_exists w (global_path m) \<and> path_exists w (node_path m n)"
  then obtain g nd where l: "load_global_config E m w = Inr g" "load_node E m w n = Inr nd"
    "node_schema nd" "peers_ok E m w (declared_peers nd)"
    using well_formed_loads [of E m w n] by blast
  have p: "build_context E m n w =
             (Inr \<lparr>ctx_global = g, ctx_node = nd,
                   ctx_peers = List.map_filter (contributes E m w nd) (declared_peers nd),
                   generated_by = ''AEGIS Peering Manager'',
                   generated_at = isoformat_now E (tick w)\<rparr>,
              w\<lparr>stdout := stdout w
                    @ map (warning E)
                        (filter (\<lambda>x. \<not> peer_present E m w x) (declared_peers nd)),
                tick := Suc (tick w)\<rparr>)"
    by (simp add: build_context_schema [OF l] map_filter_contributes [OF l(3,4)])
  have q: "List.map_filter (contributes E m w nd) (declared_peers nd)
                = enabled_peers (peer_record E m w) (override_for nd) (declared_peers nd)"
    if "list_all (\<lambda>x. dict_keys_distinct (override_for nd x)) (declared_peers nd)"
    by (simp add: map_filter_contributes [OF l(3,4)] resolved_sequence_eq [OF l(4)]
          enabled_peers_eq [OF that])
  from l(1,2) p q show "\<exists>g nd. load_global_config E m w = Inr g \<and> load_node E m w n = Inr nd
         \<and> build_context E m n w =
             (Inr \<lparr>ctx_global = g, ctx_node = nd,
                   ctx_peers = List.map_filter (contributes E m w nd) (declared_peers nd),
                   generated_by = ''AEGIS Peering Manager'',
                   generated_at = isoformat_now E (tick w)\<rparr>,
              w\<lparr>stdout := stdout w
                    @ map (warning E)
                        (filter (\<lambda>x. \<not> peer_present E m w x) (declared_peers nd)),
                tick := Suc (tick w)\<rparr>)
         \<and> (list_all (\<lambda>x. dict_keys_distinct (override_for nd x)) (declared_peers nd) \<longrightarrow>
              List.map_filter (contributes E m w nd) (declared_peers nd)
                = enabled_peers (peer_record E m w) (override_for nd) (declared_peers nd))"
    by blast
next
  assume a: "node_schema nc \<and> hashable x \<and> peer_record E m w x = Some b
        \<and> dict_keys_distinct (override_for nc x)"
  then have c: "contributes E m w nc x =
          (if truthy (enabled_value b (override_for nc x))
           then Some (YDict (dict_merge b (override_for nc x))) else None)"
    using contributes_enabled [of nc x E m w b] by blast
  show "contributes E m w nc x =
          (if truthy (enabled_value b (override_for nc x))
           then Some (YDict (dict_merge b (override_for nc x))) else None)"
    by (rule c)
  show "contributes E m w nc x = None"
    if "enabled_value b (override_for nc x) = YBool False"
    using c that by simp
  show "contributes E m w nc x = Some (YDict (dict_merge b (override_for nc x)))"
    if "dict_get (override_for nc x) (YStr ''enabled'') = Some (YBool True)"
    using c that by (simp add: enabled_value_def)
  show "contributes E m w nc x = Some (YDict (dict_merge b (override_for nc x)))"
    if "dict_get (override_for nc x) (YStr ''enabled'') = None
             \<and> dict_get b (YStr ''enabled'') = None"
    using c that by (simp add: enabled_value_def)
qed

theorem enabled_filter_witness:
  "well_formed ex_env ex_manager ex_world ''edge1''
   \<and> path_exists ex_world (global_path ex_manager)
   \<and> path_exists ex_world (node_path ex_manager ''edge1'')
   \<and> load_node ex_env ex_manager ex_world ''edge1'' = Inr ex_edge1
   \<and> list_all (\<lambda>x. dict_keys_distinct (override_for ex_edge1 x)) (declared_peers ex_edge1)
   \<and> enabled_peers (peer_record ex_env ex_manager ex_world) (override_for ex_edge1)
        (declared_peers ex_edge1) = [YDict ex_peer1]
   \<and> build_context ex_env ex_manager ''edge1'' ex_world =
       (Inr \<lparr>ctx_global = YDict [(YStr ''asn'', YInt 65000)], ctx_node = ex_edge1,
             ctx_peers = [YDict ex_peer1],
             generated_by = ''AEGIS Peering Manager'',
             generated_at = ''2024-01-01T00:00:00+00:00''\<rparr>,
        ex_world\<lparr>stdout := [], tick := 1\<rparr>)
   \<and> well_formed ex_env ex_manager ex_world_edge4 ''edge4''
   \<and> path_exists ex_world_edge4 (global_path ex_manager)
   \<and> path_exists ex_world_edge4 (node_path ex_manager ''edge4'')
   \<and> load_node ex_env ex_manager ex_world_edge4 ''edge4'' = Inr ex_edge4
   \<and> peer_record ex_env ex_manager ex_world_edge4 (YStr ''p3'')
        = Some [(YStr ''address'', YStr ''10.0.0.3''), (YStr ''enabled'', YBool False)]
   \<and> build_context ex_env ex_manager ''edge4'' ex_world_edge4 =
       (Inr \<lparr>ctx_global = YDict [(YStr ''asn'', YInt 65000)], ctx_node = ex_edge4,
             ctx_peers = [YDict [(YStr ''address'', YStr ''10.0.0.3''),
                                 (YStr ''enabled'', YBool True)]],
             generated_by = ''AEGIS Peering Manager'',
             generated_at = ''2024-01-01T00:00:00+00:00''\<rparr>,
        ex_world_edge4\<lparr>stdout := [], tick := 1\<rparr>)
   \<and> node_schema ex_edge1 \<and> hashable (YStr ''p2'')
   \<and> peer_record ex_env ex_manager ex_world (YStr ''p2'') = Some ex_peer2
   \<and> dict_keys_distinct (override_for ex_edge1 (YStr ''p2''))
   \<and> enabled_value ex_peer2 (override_for ex_edge1 (YStr ''p2'')) = YBool False
   \<and> contributes ex_env ex_manager ex_world ex_edge1 (YStr ''p2'') = None
   \<and> node_schema ex_edge4 \<and> hashable (YStr ''p3'')
   \<and> peer_record ex_env ex_manager ex_world (YStr ''p3'')
        = Some [(YStr ''address'', YStr ''10.0.0.3''), (YStr ''enabled'', YBool False)]
   \<and> dict_keys_distinct (override_for ex_edge4 (YStr ''p3''))
   \<and> dict_get (override_for ex_edge4 (YStr ''p3'')) (YStr ''enabled'') = Some (YBool True)
   \<and> contributes ex_env ex_manager ex_world ex_edge4 (YStr ''p3'')
        = Some (YDict (dict_merge
             [(YStr ''address'', YStr ''10.0.0.3''), (YStr ''enabled'', YBool False)]
             (override_for ex_edge4 (YStr ''p3''))))"
proof -
  let ?G = "YDict [(YStr ''asn'', YInt 65000)]"
  have a: "well_formed ex_env ex_manager ex_world ''edge1''"
    "path_exists ex_world (global_path ex_manager)"
    "path_exists ex_world (node_path ex_manager ''edge1'')"
    "node_schema ex_edge1" "hashable (YStr ''p2'')"
    "peer_record ex_env ex_manager ex_world (YStr ''p2'') = Some ex_peer2"
    "dict_keys_distinct (override_for ex_edge1 (YStr ''p2''))"
    "enabled_value ex_peer2 (override_for ex_edge1 (YStr ''p2'')) = YBool False"
    by code_simp+
  have b: "node_schema ex_edge4" "hashable (YStr ''p3'')"
    "peer_record ex_env ex_manager ex_world (YStr ''p3'')
        = Some [(YStr ''address'', YStr ''10.0.0.3''), (YStr ''enabled'', YBool False)]"
    "dict_keys_distinct (override_for ex_edge4 (YStr ''p3''))"
    "dict_get (override_for ex_edge4 (YStr ''p3'')) (YStr ''enabled'') = Some (YBool True)"
    by code_simp+
  have a4: "well_formed ex_env ex_manager ex_world_edge4 ''edge4''"
    "path_exists ex_world_edge4 (global_path ex_manager)"
    "path_exists ex_world_edge4 (node_path ex_manager ''edge4'')"
    "peer_record ex_env ex_manager ex_world_edge4 (YStr ''p3'')
        = Some [(YStr ''address'', YStr ''10.0.0.3''), (YStr ''enabled'', YBool False)]"
    by code_simp+
  have l: "load_global_config ex_env ex_manager ex_world = Inr ?G"
    "load_node ex_env ex_manager ex_world ''edge1'' = Inr ex_edge1"
    "load_global_config ex_env ex_manager ex_world_edge4 = Inr ?G"
    "load_node ex_env ex_manager ex_world_edge4 ''edge4'' = Inr ex_edge4"
    by code_simp+
  have v: "list_all (\<lambda>x. dict_keys_distinct (override_for ex_edge1 x)) (declared_peers ex_edge1)"
    "enabled_peers (peer_record ex_env ex_manager ex_world) (override_for ex_edge1)
        (declared_peers ex_edge1) = [YDict ex_peer1]"
    "map (warning ex_env)
       (filter (\<lambda>x. \<not> peer_present ex_env ex_manager ex_world x) (declared_peers ex_edge1)) = []"
    "stdout ex_world = []" "tick ex_world = 0"
    by code_simp+
  have v4: "List.map_filter (contributes ex_env ex_manager ex_world_edge4 ex_edge4)
              (declared_peers ex_edge4)
            = [YDict [(YStr ''address'', YStr ''10.0.0.3''), (YStr ''enabled'', YBool True)]]"
    "map (warning ex_env)
       (filter (\<lambda>x. \<not> peer_present ex_env ex_manager ex_world_edge4 x)
          (declared_peers ex_edge4)) = []"
    "stdout ex_world_edge4 = []" "tick ex_world_edge4 = 0"
    by code_simp+
  have t: "isoformat_now ex_env 0 = ''2024-01-01T00:00:00+00:00''"
    by (simp add: ex_env_def)
  note th1 = enabled_filter [of ex_env ex_manager ex_world "''edge1''" ex_edge1 "YStr ''p2''"
               ex_peer2]
  note th4 = enabled_filter [of ex_env ex_manager ex_world_edge4 "''edge4''" ex_edge4
               "YStr ''p3''"
               "[(YStr ''address'', YStr ''10.0.0.3''), (YStr ''enabled'', YBool False)]"]
  from a(1,2,3) th1 obtain g nd where
    f: "load_global_config ex_env ex_manager ex_world = Inr g"
       "load_node ex_env ex_manager ex_world ''edge1'' = Inr nd"
       "build_context ex_env ex_manager ''edge1'' ex_world =
             (Inr \<lparr>ctx_global = g, ctx_node = nd,
                   ctx_peers = List.map_filter (contributes ex_env ex_manager ex_world nd)
                                 (declared_peers nd),
                   generated_by = ''AEGIS Peering Manager'',
                   generated_at = isoformat_now ex_env (tick ex_world)\<rparr>,
              ex_world\<lparr>stdout := stdout ex_world
                    @ map (warning ex_env)
                        (filter (\<lambda>x. \<not> peer_present ex_env ex_manager ex_world x)
                           (declared_peers nd)),
                tick := Suc (tick ex_world)\<rparr>)"
       "list_all (\<lambda>x. dict_keys_distinct (override_for nd x)) (declared_peers nd) \<longrightarrow>
              List.map_filter (contributes ex_env ex_manager ex_world nd) (declared_peers nd)
                = enabled_peers (peer_record ex_env ex_manager ex_world) (override_for nd)
                    (declared_peers nd)"
    by blast
  from f(1,2) l have g: "g = ?G" "nd = ex_edge1"
    by simp_all
  from f(4) v(1,2) have k: "List.map_filter (contributes ex_env ex_manager ex_world ex_edge1)
                         (declared_peers ex_edge1) = [YDict ex_peer1]"
    by (simp add: g)
  have h: "build_context ex_env ex_manager ''edge1'' ex_world =
       (Inr \<lparr>ctx_global = ?G, ctx_node = ex_edge1, ctx_peers = [YDict ex_peer1],
             generated_by = ''AEGIS Peering Manager'',
             generated_at = ''2024-01-01T00:00:00+00:00''\<rparr>,
        ex_world\<lparr>stdout := [], tick := 1\<rparr>)"
    unfolding f(3) g k v t by simp
  from a4(1,2,3) th4 obtain g4 nd4 where
    f4: "load_global_config ex_env ex_manager ex_world_edge4 = Inr g4"
       "load_node ex_env ex_manager ex_world_edge4 ''edge4'' = Inr nd4"
       "build_context ex_env ex_manager ''edge4'' ex_world_edge4 =
             (Inr \<lparr>ctx_global = g4, ctx_node = nd4,
                   ctx_peers = List.map_filter (contributes ex_env ex_manager ex_world_edge4 nd4)
                                 (declared_peers nd4),
                   generated_by = ''AEGIS Peering Manager'',
                   generated_at = isoformat_now ex_env (tick ex_world_edge4)\<rparr>,
              ex_world_edge4\<lparr>stdout := stdout ex_world_edge4
                    @ map (warning ex_env)
                        (filter (\<lambda>x. \<not> peer_present ex_env ex_manager ex_world_edge4 x)
                           (declared_peers nd4)),
                tick := Suc (tick ex_world_edge4)\<rparr>)"
    by blast
  from f4(1,2) l have g4: "g4 = ?G" "nd4 = ex_edge4"
    by simp_all
  have h4: "build_context ex_env ex_manager ''edge4'' ex_world_edge4 =
       (Inr \<lparr>ctx_global = ?G, ctx_node = ex_edge4,
             ctx_peers = [YDict [(YStr ''address'', YStr ''10.0.0.3''),
                                 (YStr ''enabled'', YBool True)]],
             generated_by = ''AEGIS Peering Manager'',
             generated_at = ''2024-01-01T00:00:00+00:00''\<rparr>,
        ex_world_edge4\<lparr>stdout := [], tick := 1\<rparr>)"
    unfolding f4(3) g4 v4 t by simp
  have c1: "contributes ex_env ex_manager ex_world ex_edge1 (YStr ''p2'') = None"
    using a th1 by blast
  have c4: "contributes ex_env ex_manager ex_world ex_edge4 (YStr ''p3'')
        = Some (YDict (dict_merge
             [(YStr ''address'', YStr ''10.0.0.3''), (YStr ''enabled'', YBool False)]
             (override_for ex_edge4 (YStr ''p3''))))"
    using b enabled_filter [of ex_env ex_manager ex_world "''edge1''" ex_edge4
        "YStr ''p3''" "[(YStr ''address'', YStr ''10.0.0.3''), (YStr ''enabled'', YBool False)]"]
    by blast
  show ?thesis
    using a b a4 l(2,4) v(1,2) h h4 c1 c4 by simp
qed

subsection \<open>Missing keys of a node record\<close>

lemma resolve_peer_no_override:
  assumes "hashable x" and "peer_record E m w x = Some b"
    and "dict_get nd (YStr ''overrides'') = None
         \<or> (\<exists>od. dict_get nd (YStr ''overrides'') = Some (YDict od) \<and> dict_get od x = None)"
  shows "resolve_peer E m w (YDict nd) x = Inr (if effective_enabled b then Some (YDict b) else None)"
proof -
  from assms(2) have l: "load_peer E m w x = Inr (YDict b)"
    by (auto simp: peer_record_def split: sum.splits yaml.splits)
  from assms(3) obtain a where a: "py_get (YDict nd) (YStr ''overrides'') (YDict []) = Inr a"
    and o: "py_get a x (YDict []) = Inr (YDict [])"
    using assms(1) by (auto simp: py_get_def)
  have u: "py_update (YDict b) (YDict []) = Inr (YDict b)"
    by (simp add: py_update_def dict_merge_def)
  have g: "py_get (YDict b) (YStr ''enabled'') (YBool True)
             = Inr (case dict_get b (YStr ''enabled'') of None \<Rightarrow> YBool True | Some v \<Rightarrow> v)"
    by (simp add: py_get_def)
  show ?thesis
    by (simp add: resolve_peer_def l a o u g effective_enabled_def split: option.split)
qed

text \<open>
  Claim C10. A node record without a \<open>peers\<close> key (an empty document is one) resolves to
  a context with no peers, whatever its \<open>overrides\<close> are, and nothing is printed. Without
  an \<open>overrides\<close> key, or without an entry for the peer in it, a peer is resolved with the
  empty override: the result is its own record, kept if that record is enabled; a node
  without an \<open>overrides\<close> key therefore resolves to the enabled records of its peers.
\<close>

theorem missing_keys_default:
  "(load_global_config E m w = Inr g \<and> load_node E m w n = Inr (YDict nd)
      \<and> dict_get nd (YStr ''peers'') = None \<longrightarrow>
      build_context E m n w =
        (Inr \<lparr>ctx_global = g, ctx_node = YDict nd, ctx_peers = [],
              generated_by = ''AEGIS Peering Manager'',
              generated_at = isoformat_now E (tick w)\<rparr>,
         w\<lparr>tick := Suc (tick w)\<rparr>))
   \<and> (hashable x \<and> peer_record E m w x = Some b
        \<and> (dict_get nd (YStr ''overrides'') = None
            \<or> (\<exists>od. dict_get nd (YStr ''overrides'') = Some (YDict od) \<and> dict_get od x = None))
        \<longrightarrow>
        resolve_peer E m w (YDict nd) x
          = Inr (if effective_enabled b then Some (YDict b) else None))
   \<and> (load_global_config E m w = Inr g \<and> load_node E m w n = Inr (YDict nd)
        \<and> dict_get nd (YStr ''overrides'') = None
        \<and> dict_get nd (YStr ''peers'') = Some (YList names)
        \<and> list_all is_str names \<and> peers_ok E m w names \<longrightarrow>
        (\<exists>ctx w'. build_context E m n w = (Inr ctx, w')
           \<and> ctx_peers ctx = resolved_sequence (peer_record E m w) (\<lambda>x. []) names))"
proof (intro conjI impI)
  assume a: "load_global_config E m w = Inr g \<and> load_node E m w n = Inr (YDict nd)
      \<and> dict_get nd (YStr ''peers'') = None"
  then have l: "listed_peers (YDict nd) = Inr []"
    by (simp add: listed_peers_def py_get_def)
  have "build_context E m n w =
        (Inr \<lparr>ctx_global = g, ctx_node = YDict nd, ctx_peers = [],
              generated_by = ''AEGIS Peering Manager'',
              generated_at = isoformat_now E (tick w)\<rparr>,
         w\<lparr>stdout := stdout w @ [], tick := Suc (tick w)\<rparr>)"
    using a build_context_run [of E m w g n "YDict nd" "[]", OF _ _ l]
    by (simp add: map_filter_simps)
  then show "build_context E m n w =
        (Inr \<lparr>ctx_global = g, ctx_node = YDict nd, ctx_peers = [],
              generated_by = ''AEGIS Peering Manager'',
              generated_at = isoformat_now E (tick w)\<rparr>,
         w\<lparr>tick := Suc (tick w)\<rparr>)"
    by simp
next
  assume "hashable x \<and> peer_record E m w x = Some b
        \<and> (dict_get nd (YStr ''overrides'') = None
            \<or> (\<exists>od. dict_get nd (YStr ''overrides'') = Some (YDict od) \<and> dict_get od x = None))"
  then show "resolve_peer E m w (YDict nd) x
          = Inr (if effective_enabled b then Some (YDict b) else None)"
    using resolve_peer_no_override [of x E m w b nd] by blast
next
  assume a: "load_global_config E m w = Inr g \<and> load_node E m w n = Inr (YDict nd)
        \<and> dict_get nd (YStr ''overrides'') = None
        \<and> dict_get nd (YStr ''peers'') = Some (YList names)
        \<and> list_all is_str names \<and> peers_ok E m w names"
  then have s: "node_schema (YDict nd)" and d: "declared_peers (YDict nd) = names"
    and o: "override_for (YDict nd) = (\<lambda>x. [])"
    by (simp_all add: node_schema_def declared_peers_def override_for_def fun_eq_iff)
  from a d have ok: "peers_ok E m w (declared_peers (YDict nd))" by simp
  from a have l: "load_global_config E m w = Inr g" "load_node E m w n = Inr (YDict nd)"
    by simp_all
  show "\<exists>ctx w'. build_context E m n w = (Inr ctx, w')
           \<and> ctx_peers ctx = resolved_sequence (peer_record E m w) (\<lambda>x. []) names"
    using resolved_sequence_eq [OF ok, of "YDict nd"]
    by (simp add: build_context_schema [OF l s ok] o d)
qed

theorem missing_keys_default_witness:
  "load_global_config ex_env ex_manager ex_world = Inr (YDict [(YStr ''asn'', YInt 65000)])
   \<and> load_node ex_env ex_manager ex_world ''edge3'' = Inr (YDict [])
   \<and> dict_get [] (YStr ''peers'') = None
   \<and> build_context ex_env ex_manager ''edge3'' ex_world =
        (Inr \<lparr>ctx_global = YDict [(YStr ''asn'', YInt 65000)], ctx_node = YDict [],
              ctx_peers = [], generated_by = ''AEGIS Peering Manager'',
              generated_at = isoformat_now ex_env (tick ex_world)\<rparr>,
         ex_world\<lparr>tick := Suc (tick ex_world)\<rparr>)
   \<and> hashable (YStr ''p1'')
   \<and> peer_record ex_env ex_manager ex_world (YStr ''p1'') = Some ex_peer1
   \<and> dict_get ex_edge2 (YStr ''overrides'') = None
   \<and> resolve_peer ex_env ex_manager ex_world (YDict ex_edge2) (YStr ''p1'')
        = Inr (if effective_enabled ex_peer1 then Some (YDict ex_peer1) else None)
   \<and> load_node ex_env ex_manager ex_world ''edge2'' = Inr (YDict ex_edge2)
   \<and> dict_get ex_edge2 (YStr ''peers'') = Some (YList [YStr ''ghost'', YStr ''p1''])
   \<and> list_all is_str [YStr ''ghost'', YStr ''p1'']
   \<and> peers_ok ex_env ex_manager ex_world [YStr ''ghost'', YStr ''p1'']
   \<and> (\<exists>ctx w'. build_context ex_env ex_manager ''edge2'' ex_world = (Inr ctx, w')
         \<and> ctx_peers ctx
             = resolved_sequence (peer_record ex_env ex_manager ex_world) (\<lambda>x. [])
                 [YStr ''ghost'', YStr ''p1''])"
proof -
  have a: "load_global_config ex_env ex_manager ex_world = Inr (YDict [(YStr ''asn'', YInt 65000)])"
    "load_node ex_env ex_manager ex_world ''edge3'' = Inr (YDict [])"
    "dict_get [] (YStr ''peers'') = None"
    "hashable (YStr ''p1'')"
    "peer_record ex_env ex_manager ex_world (YStr ''p1'') = Some ex_peer1"
    "dict_get ex_edge2 (YStr ''overrides'') = None"
    "load_node ex_env ex_manager ex_world ''edge2'' = Inr (YDict ex_edge2)"
    "dict_get ex_edge2 (YStr ''peers'') = Some (YList [YStr ''ghost'', YStr ''p1''])"
    "list_all is_str [YStr ''ghost'', YStr ''p1'']"
    "peers_ok ex_env ex_manager ex_world [YStr ''ghost'', YStr ''p1'']"
    by code_simp+
  show ?thesis
    using a
      missing_keys_default [of ex_env ex_manager ex_world "YDict [(YStr ''asn'', YInt 65000)]"
        "''edge3''" "[]" "YStr ''p1''" ex_peer1 "[]"]
      missing_keys_default [of ex_env ex_manager ex_world "YDict [(YStr ''asn'', YInt 65000)]"
        "''edge2''" ex_edge2 "YStr ''p1''" ex_peer1 "[YStr ''ghost'', YStr ''p1'']"]
    by blast
qed

subsection \<open>The stored records\<close>

lemma load_peer_fs:
  "files w' = files w \<Longrightarrow> dirs w' = dirs w \<Longrightarrow> load_peer E m w' x = load_peer E m w x"
  by (simp add: load_peer_def load_yaml_fs [of w' w])

lemma render_config_frame:
  assumes "render_config E m n w = (r, w')"
  shows "files w' = files w \<and> dirs w' = dirs w"
proof -
  obtain r1 w1 where b: "build_context E m n w = (r1, w1)"
    by (cases "build_context E m n w")
  from build_context_frame [OF b] have f: "files w1 = files w \<and> dirs w1 = dirs w" .
  show ?thesis
    using assms b f by (cases r1) (auto simp: render_config_def)
qed

text \<open>
  Claim C6. The stored peer records are the peer files, and the program keeps no other copy
  of a record: every \<open>load_peer\<close> parses the file again, and the dict that
  \<^verbatim>\<open>peer.update(overrides)\<close> changes is the one that call has just built. Resolution
  writes no file and creates no directory, during the loop and at its end, so every later
  \<open>load_peer\<close> returns the record it returned before, and a later resolution of the peer,
  for this node or another, starts from the same record. Rendering adds no write either.
\<close>

theorem stored_records_unchanged:
  "(build_context E m n w = (r, w') \<longrightarrow>
      files w' = files w \<and> dirs w' = dirs w
      \<and> (\<forall>x. load_peer E m w' x = load_peer E m w x)
      \<and> (\<forall>x. peer_record E m w' x = peer_record E m w x)
      \<and> (\<forall>nc x. resolve_peer E m w' nc x = resolve_peer E m w nc x))
   \<and> (resolve_peers E m nc names acc w = (r1, w1) \<longrightarrow>
        files w1 = files w \<and> dirs w1 = dirs w
        \<and> (\<forall>x. load_peer E m w1 x = load_peer E m w x))
   \<and> (render_config E m n w = (r2, w2) \<longrightarrow>
        files w2 = files w \<and> dirs w2 = dirs w
        \<and> (\<forall>x. load_peer E m w2 x = load_peer E m w x))"
proof (intro conjI impI allI)
  assume "build_context E m n w = (r, w')"
  from build_context_frame [OF this] have f: "files w' = files w" "dirs w' = dirs w"
    by simp_all
  show "files w' = files w" "dirs w' = dirs w" by (rule f)+
  show "load_peer E m w' x = load_peer E m w x" for x
    by (rule load_peer_fs [OF f])
  show "peer_record E m w' x = peer_record E m w x" for x
    by (simp add: peer_record_def load_peer_fs [OF f])
  show "resolve_peer E m w' nc x = resolve_peer E m w nc x" for nc x
    by (rule resolve_peer_fs [OF f])
next
  assume "resolve_peers E m nc names acc w = (r1, w1)"
  from resolve_peers_frame [OF this] have f: "files w1 = files w" "dirs w1 = dirs w"
    by simp_all
  show "files w1 = files w" "dirs w1 = dirs w" by (rule f)+
  show "load_peer E m w1 x = load_peer E m w x" for x
    by (rule load_peer_fs [OF f])
next
  assume "render_config E m n w = (r2, w2)"
  from render_config_frame [OF this] have f: "files w2 = files w" "dirs w2 = dirs w"
    by simp_all
  show "files w2 = files w" "dirs w2 = dirs w" by (rule f)+
  show "load_peer E m w2 x = load_peer E m w x" for x
    by (rule load_peer_fs [OF f])
qed

theorem stored_records_unchanged_witness:
  "build_context ex_env ex_manager ''edge1'' ex_world
     = (fst (build_context ex_env ex_manager ''edge1'' ex_world),
        snd (build_context ex_env ex_manager ''edge1'' ex_world))
   \<and> contributes ex_env ex_manager ex_world ex_edge1 (YStr ''p2'') = None
   \<and> files (snd (build_context ex_env ex_manager ''edge1'' ex_world)) = files ex_world
   \<and> load_peer ex_env ex_manager (snd (build_context ex_env ex_manager ''edge1'' ex_world))
        (YStr ''p2'')
      = load_peer ex_env ex_manager ex_world (YStr ''p2'')
   \<and> load_peer ex_env ex_manager ex_world (YStr ''p2'') = Inr (YDict ex_peer2)"
proof -
  have a: "build_context ex_env ex_manager ''edge1'' ex_world
     = (fst (build_context ex_env ex_manager ''edge1'' ex_world),
        snd (build_context ex_env ex_manager ''edge1'' ex_world))"
    by simp
  have b: "contributes ex_env ex_manager ex_world ex_edge1 (YStr ''p2'') = None"
    "load_peer ex_env ex_manager ex_world (YStr ''p2'') = Inr (YDict ex_peer2)"
    by code_simp+
  show ?thesis
    using a b
      stored_records_unchanged [of ex_env ex_manager "''edge1''" ex_world
        "fst (build_context ex_env ex_manager ''edge1'' ex_world)"
        "snd (build_context ex_env ex_manager ''edge1'' ex_world)"]
    by blast
qed

subsection \<open>The external validator\<close>

lemma world_projections:
  "files (print s w) = files w" "dirs (print s w) = dirs w" "stdout (print s w) = stdout w @ [s]"
  "files (removed p w) = AList.delete p (files w)" "dirs (removed p w) = dirs w"
  "stdout (removed p w) = stdout w"
  "files (with_temp p config w) = AList.update p config (files w)"
  "dirs (with_temp p config w) = dirs w" "stdout (with_temp p config w) = stdout w"
  by (simp_all add: print_def removed_def with_temp_def)

lemma validate_config_create_raises:
  "temp_name E w = Inl e \<Longrightarrow> validate_config E config w = (Inl e, w)"
  by (simp add: validate_config_def)

lemma validate_config_write_raises:
  "temp_name E w = Inr p \<Longrightarrow> temp_write E w p config = Some (e, written) \<Longrightarrow>
   validate_config E config w = (Inl e, with_temp p written w)"
  by (simp add: validate_config_def with_temp_def)

lemma unlink_present:
  "''..'' \<notin> set p \<Longrightarrow> map_of (files w) p \<noteq> None \<Longrightarrow> unlink w p = Inr (removed p w)"
  by (auto simp add: unlink_def resolve_plain removed_def)

lemma unlink_absent:
  "''..'' \<notin> set p \<Longrightarrow> map_of (files w) p = None \<Longrightarrow> \<exists>e. unlink w p = Inl e"
  by (simp add: unlink_def resolve_plain)

text \<open>
  With the temporary file created and written, the outcome of the checker is classified:
  return code 0 is a pass, reported as valid; any other return code is a failure, reported
  with the captured error stream; a checker that is not installed is a pass, reported by a
  warning that validation is skipped; a timeout is a failure, reported as such; any other
  exception of the run is raised again. If the checker has left the file in place, it is
  gone afterwards on each of these paths.
\<close>

lemma validate_config_classifies:
  assumes "temp_name E w = Inr p" and "''..'' \<notin> set p"
    and "temp_write E w p config = None"
    and "run_bird E (with_temp p config w) p = (outcome, w1)"
    and "map_of (files w1) p \<noteq> None"
  shows "validate_config E config w =
     (case outcome of
        Inr (returncode, err) \<Rightarrow>
          if returncode = 0
          then (Inr True, removed p (print ''Configuration is valid'' w1))
          else (Inr False,
                removed p (print (''Configuration validation failed:'' @ newline @ err) w1))
      | Inl e \<Rightarrow>
          if is_not_found e
          then (Inr True,
                removed p
                  (print ''Install BIRD to enable config validation: apt install bird2''
                    (print ''Warning: BIRD not installed, skipping validation'' w1)))
          else if e = TimeoutExpired
          then (Inr False, removed p (print ''Warning: BIRD validation timed out'' w1))
          else (Inl e, removed p w1))"
proof -
  have u: "unlink (print s w1) p = Inr (removed p (print s w1))" for s
    using assms(2,5) by (intro unlink_present) (simp_all add: print_def)
  have u2: "unlink (print s (print t w1)) p = Inr (removed p (print s (print t w1)))" for s t
    using assms(2,5) by (intro unlink_present) (simp_all add: print_def)
  have u0: "unlink w1 p = Inr (removed p w1)"
    using assms(2,5) by (intro unlink_present)
  show ?thesis
    using assms(1,3,4)
    unfolding validate_config_def Let_def with_temp_def [symmetric]
    by (simp add: u u2 u0 is_not_found_def split: sum.split error.split prod.split)
qed

lemma validate_config_removes:
  assumes "temp_name E w = Inr p" and "''..'' \<notin> set p"
    and "temp_write E w p config = None"
    and "run_bird E (with_temp p config w) p = (outcome, w1)"
    and "map_of (files w1) p \<noteq> None"
  shows "\<not> is_file (snd (validate_config E config w)) p"
proof -
  have "map_of (files (removed p v)) p = None" for v
    by (simp add: world_projections delete_conv')
  then have r: "\<not> is_file (removed p v) p" for v
    using assms(2) by (simp add: is_file_def resolve_plain)
  show ?thesis
    unfolding validate_config_classifies [OF assms]
    by (simp add: r split: sum.split prod.split)
qed

text \<open>
  A checker that removes the file it was given makes the call raise: the exception of
  \<^verbatim>\<open>os.unlink\<close> in the \<^verbatim>\<open>finally\<close> clause replaces the classification.
\<close>

lemma validate_config_file_taken:
  assumes "temp_name E w = Inr p" and "''..'' \<notin> set p"
    and "temp_write E w p config = None"
    and "run_bird E (with_temp p config w) p = (outcome, w1)"
    and "map_of (files w1) p = None"
  shows "\<exists>e. fst (validate_config E config w) = Inl e"
proof -
  have u: "\<exists>e. unlink v p = Inl e" if "files v = files w1" for v
    using assms(2,5) that by (intro unlink_absent) simp_all
  obtain result w2 where
    c: "(case outcome of
           Inr (returncode, err) \<Rightarrow>
             (if returncode = 0 then (Inr True, print ''Configuration is valid'' w1)
              else (Inr False,
                    print (''Configuration validation failed:'' @ newline @ err) w1))
         | Inl (FileNotFoundError msg) \<Rightarrow>
             (Inr True,
              print ''Install BIRD to enable config validation: apt install bird2''
                (print ''Warning: BIRD not installed, skipping validation'' w1))
         | Inl TimeoutExpired \<Rightarrow>
             (Inr False, print ''Warning: BIRD validation timed out'' w1)
         | Inl e \<Rightarrow> (Inl e, w1)) = (result :: error + bool, w2)"
    by (meson surj_pair)
  then have "files w2 = files w1"
    by (auto simp add: print_def split: sum.splits prod.splits if_splits error.splits)
  then obtain e where "unlink w2 p = Inl e"
    using u by blast
  then show ?thesis
    using assms(1,3,4) c
    unfolding validate_config_def Let_def with_temp_def [symmetric]
    by simp
qed

text \<open>
  Claim C7. The temporary file is not removed on every path: it is created and written
  before the \<^verbatim>\<open>try\<close> whose \<^verbatim>\<open>finally\<close> clause removes it. On a full disk the file is created,
  the write raises, and \<open>validate_config\<close> raises in turn, leaving behind the temporary
  file, which was not there before the call.
\<close>

theorem validate_config_leaves_temp_file:
  "validate_config ex_full_disk ''router id 10.0.0.1;'' ex_world
     = (Inl (OtherError ''[Errno 28] No space left on device''),
        ex_world\<lparr>files := files ex_world @ [([''/'', ''tmp'', ''tmpbird.conf''], [])]\<rparr>)
   \<and> \<not> is_file ex_world [''/'', ''tmp'', ''tmpbird.conf'']
   \<and> is_file (snd (validate_config ex_full_disk ''router id 10.0.0.1;'' ex_world))
        [''/'', ''tmp'', ''tmpbird.conf'']"
proof -
  have a: "temp_name ex_full_disk ex_world = Inr [''/'', ''tmp'', ''tmpbird.conf'']"
    "temp_write ex_full_disk ex_world [''/'', ''tmp'', ''tmpbird.conf''] ''router id 10.0.0.1;''
       = Some (OtherError ''[Errno 28] No space left on device'', [])"
    by (simp_all add: ex_full_disk_def ex_env_def)
  have b: "with_temp [''/'', ''tmp'', ''tmpbird.conf''] [] ex_world
             = ex_world\<lparr>files := files ex_world @ [([''/'', ''tmp'', ''tmpbird.conf''], [])]\<rparr>"
    by (simp add: with_temp_def ex_world_def)
  have c: "\<not> is_file ex_world [''/'', ''tmp'', ''tmpbird.conf'']"
    "is_file (ex_world\<lparr>files := files ex_world @ [([''/'', ''tmp'', ''tmpbird.conf''], [])]\<rparr>)
       [''/'', ''tmp'', ''tmpbird.conf'']"
    by (simp_all add: is_file_def resolve_plain ex_world_def)
  show ?thesis
    using validate_config_write_raises [OF a] b c by simp
qed

subsection \<open>Multi-node runs\<close>

lemma generate_nodes_Cons:
  "generate_nodes E m od (n # rest) configs w =
     (case generate E m n (Some (path_div (path_div od n) ''bird.conf'')) w of
        (Inl e, w') \<Rightarrow> generate_nodes E m od rest configs (print (error_line E n e) w')
      | (Inr config, w') \<Rightarrow> generate_nodes E m od rest (AList.update n config configs) w')"
  by (simp add: error_line_def split: prod.split sum.split)

declare generate_nodes.simps(2) [simp del]

lemma attempts_Cons:
  "generate E m n (Some (path_div (path_div od n) ''bird.conf'')) w = (r, w1) \<Longrightarrow>
   attempts E m od (n # rest) w =
     (n, r) # attempts E m od rest (case r of Inl e \<Rightarrow> print (error_line E n e) w1 | Inr c \<Rightarrow> w1)"
  by (cases r) simp_all

declare attempts.simps(2) [simp del]

lemma attempts_names: "map fst (attempts E m od names w) = names"
proof (induction names arbitrary: w)
  case Nil
  then show ?case by simp
next
  case (Cons n names)
  obtain r w1 where g: "generate E m n (Some (path_div (path_div od n) ''bird.conf'')) w = (r, w1)"
    by (cases "generate E m n (Some (path_div (path_div od n) ''bird.conf'')) w")
  show ?case using Cons by (simp add: attempts_Cons [OF g])
qed

lemma generate_nodes_configs:
  assumes "distinct names" and "generate_nodes E m od names configs w = (cs, w')"
  shows "map_of cs n
           = (case succeeded (attempts E m od names w) n of
                Some config \<Rightarrow> Some config | None \<Rightarrow> map_of configs n)"
  using assms
proof (induction names arbitrary: configs w)
  case Nil
  then show ?case by (simp add: succeeded_def)
next
  case (Cons x names)
  obtain r w1 where g: "generate E m x (Some (path_div (path_div od x) ''bird.conf'')) w = (r, w1)"
    by (cases "generate E m x (Some (path_div (path_div od x) ''bird.conf'')) w")
  from Cons.prems have d: "distinct names" and nx: "x \<notin> set names" by simp_all
  have none: "map_of (attempts E m od names v) x = None" for v
    using nx attempts_names [of E m od names v] by (metis map_of_eq_None_iff set_map)
  show ?case
  proof (cases r)
    case (Inl e)
    let ?v = "print (error_line E x e) w1"
    have run: "generate_nodes E m od names configs ?v = (cs, w')"
      using Cons.prems(2) g Inl by (simp add: generate_nodes_Cons)
    have a: "attempts E m od (x # names) w = (x, Inl e) # attempts E m od names ?v"
      using attempts_Cons [OF g] Inl by simp
    show ?thesis
      using Cons.IH [OF d run] none [of ?v]
      by (cases "n = x") (simp_all add: a succeeded_def)
  next
    case (Inr c)
    have run: "generate_nodes E m od names (AList.update x c configs) w1 = (cs, w')"
      using Cons.prems(2) g Inr by (simp add: generate_nodes_Cons)
    have a: "attempts E m od (x # names) w = (x, Inr c) # attempts E m od names w1"
      using attempts_Cons [OF g] Inr by simp
    show ?thesis
      using Cons.IH [OF d run] none [of w1]
      by (cases "n = x") (simp_all add: a succeeded_def update_conv' split: option.split sum.split)
  qed
qed

lemma resolve_peers_stdout:
  "resolve_peers E m nc names acc w = (r, w') \<Longrightarrow> \<exists>out. stdout w' = stdout w @ out"
proof (induction names arbitrary: acc w)
  case Nil
  then show ?case by auto
next
  case (Cons x names)
  show ?case
  proof (cases "resolve_peer E m w nc x")
    case (Inl e)
    show ?thesis
    proof (cases "is_not_found e")
      case True
      then have "resolve_peers E m nc names acc (print (warning E x) w) = (r, w')"
        using Cons.prems Inl by (simp add: resolve_peers_Cons)
      from Cons.IH [OF this] show ?thesis by (auto simp: print_def)
    next
      case False
      then show ?thesis using Cons.prems Inl by (simp add: resolve_peers_Cons)
    qed
  next
    case (Inr p)
    show ?thesis
    proof (cases p)
      case None
      then have "resolve_peers E m nc names acc w = (r, w')"
        using Cons.prems Inr by (simp add: resolve_peers_Cons)
      from Cons.IH [OF this] show ?thesis .
    next
      case (Some q)
      then have "resolve_peers E m nc names (acc @ [q]) w = (r, w')"
        using Cons.prems Inr by (simp add: resolve_peers_Cons)
      from Cons.IH [OF this] show ?thesis .
    qed
  qed
qed

lemma build_context_stdout:
  assumes "build_context E m n w = (r, w')"
  shows "\<exists>out. stdout w' = stdout w @ out"
proof (cases "load_global_config E m w")
  case (Inl e)
  then show ?thesis using assms by (simp add: build_context_unfold)
next
  case g: (Inr g)
  show ?thesis
  proof (cases "load_node E m w n")
    case (Inl e)
    then show ?thesis using assms g by (simp add: build_context_unfold)
  next
    case nc: (Inr nc)
    show ?thesis
    proof (cases "listed_peers nc")
      case (Inl e)
      then show ?thesis using assms g nc by (simp add: build_context_unfold)
    next
      case names: (Inr names)
      obtain r1 w1 where rp: "resolve_peers E m nc names [] w = (r1, w1)"
        by (cases "resolve_peers E m nc names [] w")
      from resolve_peers_stdout [OF rp] obtain out where "stdout w1 = stdout w @ out" ..
      then show ?thesis
        using assms g nc names rp by (cases r1) (auto simp: build_context_unfold)
    qed
  qed
qed

lemma mkdirs_stdout: "mkdirs w p qs = Inr w2 \<Longrightarrow> stdout w2 = stdout w"
proof (induction qs arbitrary: w)
  case Nil
  then show ?case by simp
next
  case (Cons q qs)
  show ?case
  proof (cases "resolve w q")
    case None
    then show ?thesis using Cons.prems by simp
  next
    case (Some r)
    show ?thesis
    proof (cases "map_of (files w) r \<noteq> None")
      case True
      then show ?thesis using Cons.prems Some by simp
    next
      case f: False
      show ?thesis
      proof (cases "is_dir_at w r")
        case True
        then show ?thesis using Cons.prems Some f Cons.IH [of w] by simp
      next
        case False
        then show ?thesis
          using Cons.prems Some f Cons.IH [of "w\<lparr>dirs := dirs w @ [r]\<rparr>"] by simp
      qed
    qed
  qed
qed

lemma open_write_stdout: "open_write w p body = Inr w2 \<Longrightarrow> stdout w2 = stdout w"
  by (auto simp: open_write_def split: option.splits if_splits)

lemma generate_stdout:
  assumes "generate E m n p w = (r, w')"
  shows "\<exists>out. stdout w' = stdout w @ out"
proof -
  obtain r1 w1 where b: "build_context E m n w = (r1, w1)"
    by (cases "build_context E m n w")
  from build_context_stdout [OF b] obtain out where o: "stdout w1 = stdout w @ out" ..
  show ?thesis
  proof (cases r1)
    case (Inl e)
    then show ?thesis using assms b o by (simp add: generate_def render_config_def)
  next
    case (Inr ctx)
    show ?thesis
    proof (cases "render_template E w1 (templates_dir m) ctx")
      case (Inl e)
      then show ?thesis using assms b o Inr by (simp add: generate_def render_config_def)
    next
      case c: (Inr config)
      show ?thesis
      proof (cases p)
        case None
        then show ?thesis using assms b o Inr c by (simp add: generate_def render_config_def)
      next
        case (Some q)
        show ?thesis
        proof (cases "mkdir_p w1 (parent q)")
          case (Inl e)
          then show ?thesis
            using assms b o Inr c Some by (simp add: generate_def render_config_def)
        next
          case w2: (Inr w2)
          then have s2: "stdout w2 = stdout w1"
            by (simp add: mkdir_p_def mkdirs_stdout)
          show ?thesis
          proof (cases "open_write w2 q config")
            case (Inl e)
            then show ?thesis
              using assms b o Inr c Some w2 s2 by (simp add: generate_def render_config_def)
          next
            case w3: (Inr w3)
            then have s3: "stdout w3 = stdout w2"
              by (simp add: open_write_stdout)
            show ?thesis
              using assms b o Inr c Some w2 s2 w3 s3
              by (auto simp: generate_def render_config_def print_def)
          qed
        qed
      qed
    qed
  qed
qed

lemma generate_nodes_stdout:
  "generate_nodes E m od names configs w = (cs, w') \<Longrightarrow> \<exists>out. stdout w' = stdout w @ out"
proof (induction names arbitrary: configs w)
  case Nil
  then show ?case by simp
next
  case (Cons x names)
  obtain r w1 where g: "generate E m x (Some (path_div (path_div od x) ''bird.conf'')) w = (r, w1)"
    by (cases "generate E m x (Some (path_div (path_div od x) ''bird.conf'')) w")
  from generate_stdout [OF g] obtain o1 where o1: "stdout w1 = stdout w @ o1" ..
  show ?case
  proof (cases r)
    case (Inl e)
    then have "generate_nodes E m od names configs (print (error_line E x e) w1) = (cs, w')"
      using Cons.prems g by (simp add: generate_nodes_Cons)
    from Cons.IH [OF this] show ?thesis using o1 by (auto simp: print_def)
  next
    case (Inr c)
    then have "generate_nodes E m od names (AList.update x c configs) w1 = (cs, w')"
      using Cons.prems g by (simp add: generate_nodes_Cons)
    from Cons.IH [OF this] show ?thesis using o1 by auto
  qed
qed

lemma generate_nodes_errors:
  assumes "generate_nodes E m od names configs w = (cs, w')"
    and "(n, Inl e) \<in> set (attempts E m od names w)"
  shows "error_line E n e \<in> set (stdout w')"
  using assms
proof (induction names arbitrary: configs w)
  case Nil
  then show ?case by simp
next
  case (Cons x names)
  obtain r w1 where g: "generate E m x (Some (path_div (path_div od x) ''bird.conf'')) w = (r, w1)"
    by (cases "generate E m x (Some (path_div (path_div od x) ''bird.conf'')) w")
  show ?case
  proof (cases r)
    case (Inl e')
    let ?v = "print (error_line E x e') w1"
    have run: "generate_nodes E m od names configs ?v = (cs, w')"
      using Cons.prems(1) g Inl by (simp add: generate_nodes_Cons)
    have a: "attempts E m od (x # names) w = (x, Inl e') # attempts E m od names ?v"
      using attempts_Cons [OF g] Inl by simp
    show ?thesis
    proof (cases "(n, Inl e) \<in> set (attempts E m od names ?v)")
      case True
      from Cons.IH [OF run True] show ?thesis .
    next
      case False
      with Cons.prems(2) a have "n = x" "e = e'" by auto
      moreover from generate_nodes_stdout [OF run] obtain out
        where "stdout w' = stdout ?v @ out" ..
      ultimately show ?thesis by (simp add: print_def)
    qed
  next
    case (Inr c)
    have run: "generate_nodes E m od names (AList.update x c configs) w1 = (cs, w')"
      using Cons.prems(1) g Inr by (simp add: generate_nodes_Cons)
    have a: "attempts E m od (x # names) w = (x, Inr c) # attempts E m od names w1"
      using attempts_Cons [OF g] Inr by simp
    from Cons.prems(2) a have "(n, Inl e) \<in> set (attempts E m od names w1)" by auto
    from Cons.IH [OF run this] show ?thesis .
  qed
qed

lemma attempts_lookup:
  "distinct names \<Longrightarrow> (n, r) \<in> set (attempts E m od names w) \<Longrightarrow>
   map_of (attempts E m od names w) n = Some r"
  using attempts_names [of E m od names w] by (metis map_of_is_SomeI)

text \<open>
  Claim C9. In a multi-node run every node of the listing has its attempt, in the order of
  the listing, whatever happened to the nodes before it. A node whose attempt raised is
  reported on the output with its name and the text of the error, and is not a key of the
  returned map; a node whose attempt returned a configuration is a key of the map, with
  that configuration. The run itself returns the map: no error of a node leaves
  \<open>generate_all\<close>. (The names of a directory listing are distinct.)
\<close>

theorem generate_all_isolates_failures:
  "generate_all E m od w = (cs, w') \<longrightarrow>
     map fst (attempts E m (case od of None \<Rightarrow> output_dir_default m | Some d \<Rightarrow> d)
                (list_nodes m w) w) = list_nodes m w
     \<and> (\<forall>n e. (n, Inl e)
                 \<in> set (attempts E m (case od of None \<Rightarrow> output_dir_default m | Some d \<Rightarrow> d)
                          (list_nodes m w) w) \<longrightarrow>
            error_line E n e \<in> set (stdout w')
            \<and> (distinct (list_nodes m w) \<longrightarrow> map_of cs n = None))
     \<and> (\<forall>n config. (n, Inr config)
                 \<in> set (attempts E m (case od of None \<Rightarrow> output_dir_default m | Some d \<Rightarrow> d)
                          (list_nodes m w) w) \<longrightarrow>
            (distinct (list_nodes m w) \<longrightarrow> map_of cs n = Some config))
     \<and> (distinct (list_nodes m w) \<longrightarrow>
          (\<forall>n. map_of cs n
                 = succeeded (attempts E m (case od of None \<Rightarrow> output_dir_default m | Some d \<Rightarrow> d)
                                (list_nodes m w) w) n))"
proof
  let ?dir = "case od of None \<Rightarrow> output_dir_default m | Some d \<Rightarrow> d"
  let ?outs = "attempts E m ?dir (list_nodes m w) w"
  assume "generate_all E m od w = (cs, w')"
  then have run: "generate_nodes E m ?dir (list_nodes m w) [] w = (cs, w')"
    by (simp add: generate_all_def)
  have cfg: "map_of cs n = succeeded ?outs n" if "distinct (list_nodes m w)" for n
    using generate_nodes_configs [OF that run, of n] by (simp split: option.split)
  have 1: "map fst ?outs = list_nodes m w" by (rule attempts_names)
  have 2: "error_line E n e \<in> set (stdout w')
            \<and> (distinct (list_nodes m w) \<longrightarrow> map_of cs n = None)"
    if "(n, Inl e) \<in> set ?outs" for n e
    using generate_nodes_errors [OF run that] cfg [of n] attempts_lookup [OF _ that]
    by (auto simp: succeeded_def)
  have 3: "distinct (list_nodes m w) \<longrightarrow> map_of cs n = Some config"
    if "(n, Inr config) \<in> set ?outs" for n config
    using cfg [of n] attempts_lookup [OF _ that] by (auto simp: succeeded_def)
  show "map fst ?outs = list_nodes m w
     \<and> (\<forall>n e. (n, Inl e) \<in> set ?outs \<longrightarrow>
            error_line E n e \<in> set (stdout w')
            \<and> (distinct (list_nodes m w) \<longrightarrow> map_of cs n = None))
     \<and> (\<forall>n config. (n, Inr config) \<in> set ?outs \<longrightarrow>
            (distinct (list_nodes m w) \<longrightarrow> map_of cs n = Some config))
     \<and> (distinct (list_nodes m w) \<longrightarrow> (\<forall>n. map_of cs n = succeeded ?outs n))"
    using 1 2 3 cfg by blast
qed

theorem generate_all_isolates_failures_witness:
  "generate_all ex_env ex_manager None ex_world_broken
     = (fst (generate_all ex_env ex_manager None ex_world_broken),
        snd (generate_all ex_env ex_manager None ex_world_broken))
   \<and> list_nodes ex_manager ex_world_broken = [''edge1'', ''edge2'', ''edge3'', ''edge9'']
   \<and> distinct (list_nodes ex_manager ex_world_broken)
   \<and> (''edge9'', Inl (YAMLError ''{''))
        \<in> set (attempts ex_env ex_manager (output_dir_default ex_manager)
                 (list_nodes ex_manager ex_world_broken) ex_world_broken)
   \<and> (''edge1'', Inr ''10.0.0.1'')
        \<in> set (attempts ex_env ex_manager (output_dir_default ex_manager)
                 (list_nodes ex_manager ex_world_broken) ex_world_broken)
   \<and> error_line ex_env ''edge9'' (YAMLError ''{'')
        \<in> set (stdout (snd (generate_all ex_env ex_manager None ex_world_broken)))
   \<and> map_of (fst (generate_all ex_env ex_manager None ex_world_broken)) ''edge9'' = None
   \<and> map_of (fst (generate_all ex_env ex_manager None ex_world_broken)) ''edge1''
        = Some ''10.0.0.1''"
proof -
  have a: "list_nodes ex_manager ex_world_broken = [''edge1'', ''edge2'', ''edge3'', ''edge9'']"
    by code_simp
  have b: "(''edge9'', Inl (YAMLError ''{''))
        \<in> set (attempts ex_env ex_manager (output_dir_default ex_manager)
                 (list_nodes ex_manager ex_world_broken) ex_world_broken)"
    "(''edge1'', Inr ''10.0.0.1'')
        \<in> set (attempts ex_env ex_manager (output_dir_default ex_manager)
                 (list_nodes ex_manager ex_world_broken) ex_world_broken)"
    by code_simp+
  have c: "distinct (list_nodes ex_manager ex_world_broken)" by (simp add: a)
  have d: "generate_all ex_env ex_manager None ex_world_broken
     = (fst (generate_all ex_env ex_manager None ex_world_broken),
        snd (generate_all ex_env ex_manager None ex_world_broken))"
    by simp
  from generate_all_isolates_failures [of ex_env ex_manager None ex_world_broken
        "fst (generate_all ex_env ex_manager None ex_world_broken)"
        "snd (generate_all ex_env ex_manager None ex_world_broken)"] d
  have e: "(\<forall>n e. (n, Inl e)
                 \<in> set (attempts ex_env ex_manager (output_dir_default ex_manager)
                          (list_nodes ex_manager ex_world_broken) ex_world_broken) \<longrightarrow>
            error_line ex_env n e
              \<in> set (stdout (snd (generate_all ex_env ex_manager None ex_world_broken)))
            \<and> (distinct (list_nodes ex_manager ex_world_broken) \<longrightarrow>
                 map_of (fst (generate_all ex_env ex_manager None ex_world_broken)) n = None))"
    and f: "(\<forall>n config. (n, Inr config)
                 \<in> set (attempts ex_env ex_manager (output_dir_default ex_manager)
                          (list_nodes ex_manager ex_world_broken) ex_world_broken) \<longrightarrow>
            (distinct (list_nodes ex_manager ex_world_broken) \<longrightarrow>
               map_of (fst (generate_all ex_env ex_manager None ex_world_broken)) n
                 = Some config))"
    by simp_all
  show ?thesis
    using a b c d e f by blast
qed

subsection \<open>Dry runs\<close>

lemma main_all_dry_run:
  assumes "init E w (if given (arg_base_dir a) then Some (Path (the (arg_base_dir a))) else None)
             = Inr m"
    and "arg_all a" and "\<not> arg_list a" and "arg_dry_run a" and "\<not> arg_validate a"
  shows "main E a w =
           (0, print_configs (fst (generate_all E m None w)) (snd (generate_all E m None w)))"
  using assms
  by (simp add: main_def main_body_def split: prod.split)

lemma print_configs_files: "files (print_configs cs w) = files w"
  by (induction cs w rule: print_configs.induct) (simp_all add: print_def)

lemma generate_None: "generate E m n None w = render_config E m n w"
  by (cases "render_config E m n w") (auto simp: generate_def split: sum.split)

lemma main_node_dry_run:
  assumes "init E w (if given (arg_base_dir a) then Some (Path (the (arg_base_dir a))) else None)
             = Inr m"
    and "\<not> arg_all a" and "\<not> arg_list a" and "arg_dry_run a" and "\<not> arg_validate a"
    and "given (arg_node a)"
  shows "main E a w =
           (case render_config E m (the (arg_node a)) w of
              (Inl e, w1) \<Rightarrow> (1, print (''Error: '' @ str_exc E e) w1)
            | (Inr config, w1) \<Rightarrow> (0, print config w1))"
  using assms
  by (simp add: main_def main_body_def generate_None split: prod.split sum.split)

lemma main_node_dry_run_frame:
  assumes "arg_dry_run a" and "\<not> arg_list a" and "\<not> arg_all a" and "\<not> arg_validate a"
  shows "files (snd (main E a w)) = files w \<and> dirs (snd (main E a w)) = dirs w"
proof (cases "init E w (if given (arg_base_dir a) then Some (Path (the (arg_base_dir a))) else None)")
  case (Inl e)
  then show ?thesis by (simp add: main_def main_body_def print_def)
next
  case (Inr m)
  show ?thesis
  proof (cases "given (arg_node a)")
    case False
    then show ?thesis using assms Inr by (simp add: main_def main_body_def print_def)
  next
    case True
    obtain r w1 where g: "render_config E m (the (arg_node a)) w = (r, w1)"
      by (cases "render_config E m (the (arg_node a)) w")
    from render_config_frame [OF g] have f: "files w1 = files w" "dirs w1 = dirs w" by simp_all
    show ?thesis
      using f by (cases r) (simp_all add: main_node_dry_run [OF Inr assms(3,2,1,4) True] g print_def)
  qed
qed

text \<open>
  Claim C1 does not hold for multi-node runs. With \<^verbatim>\<open>--dry-run\<close>, \<open>main\<close> passes no output
  directory to \<open>generate_all\<close>, which then falls back on the default output directory of
  the manager and writes every configuration there: in the example installation the run
  exits with status 0, prints the rendered text and creates
  \<^verbatim>\<open>/srv/output/edge1/bird.conf\<close>. A single-node dry run does what the claim says: it
  writes no file (\<open>main_node_dry_run_frame\<close>) and prints the text.
\<close>

theorem dry_run_all_writes_files:
  "arg_all ex_dry_run_all \<and> arg_dry_run ex_dry_run_all
   \<and> fst (main ex_env ex_dry_run_all ex_world) = 0
   \<and> \<not> is_file ex_world [''/'', ''srv'', ''output'', ''edge1'', ''bird.conf'']
   \<and> map_of (files (snd (main ex_env ex_dry_run_all ex_world)))
        [''/'', ''srv'', ''output'', ''edge1'', ''bird.conf''] = Some ''10.0.0.1''
   \<and> files (snd (main ex_env ex_dry_run_all ex_world)) \<noteq> files ex_world
   \<and> ''10.0.0.1'' \<in> set (stdout (snd (main ex_env ex_dry_run_all ex_world)))"
proof -
  have i: "init ex_env ex_world
             (if given (arg_base_dir ex_dry_run_all)
              then Some (Path (the (arg_base_dir ex_dry_run_all))) else None) = Inr ex_manager"
    by code_simp
  have a: "arg_all ex_dry_run_all" "\<not> arg_list ex_dry_run_all" "arg_dry_run ex_dry_run_all"
    "\<not> arg_validate ex_dry_run_all"
    by (simp_all add: ex_dry_run_all_def)
  have m: "main ex_env ex_dry_run_all ex_world =
           (0, print_configs (fst (generate_all ex_env ex_manager None ex_world))
                 (snd (generate_all ex_env ex_manager None ex_world)))"
    by (rule main_all_dry_run [OF i a])
  have n: "\<not> is_file ex_world [''/'', ''srv'', ''output'', ''edge1'', ''bird.conf'']"
    by code_simp
  have f: "map_of (files (snd (generate_all ex_env ex_manager None ex_world)))
        [''/'', ''srv'', ''output'', ''edge1'', ''bird.conf''] = Some ''10.0.0.1''"
    by code_simp
  have o: "''10.0.0.1'' \<in> set (stdout (print_configs
             (fst (generate_all ex_env ex_manager None ex_world))
             (snd (generate_all ex_env ex_manager None ex_world))))"
    by code_simp
  have d: "files (snd (generate_all ex_env ex_manager None ex_world)) \<noteq> files ex_world"
    using n f by (auto simp: is_file_def resolve_plain)
  show ?thesis
    using a n f o d by (simp add: m print_configs_files)
qed

end
